theory Spec2Isabelle
  imports Complex_Main
begin

section \<open>ColECM 2D simulation routines (sim\_tools\_2D.py)\<close>

text \<open>
  The arrays of the source are numpy arrays of double precision floats. They are modelled
  over the real numbers: rounding, overflow, NaN and infinity are outside the model. Where
  the source divides by zero (a NaN or an infinity, never an exception in numpy) the
  model has the total division of HOL, which returns 0, and says nothing about the
  program: the evaluations at concrete inputs below divide by no zero, and a general
  statement is one about real arithmetic. A bead array of shape
  \<open>(n, 2)\<close> is a list of pairs, an array of integer indices a list of \<open>int\<close>,
  and an exception of the source is a value of type \<open>error\<close>.
\<close>

subsection \<open>Data model\<close>

datatype error = IndexError | ValueError

type_synonym vec2 = "real \<times> real"

text \<open>The virial tensor, a \<open>2 \<times> 2\<close> array: rows \<open>(v00, v01)\<close> and \<open>(v10, v11)\<close>.\<close>

type_synonym mat2 = "(real \<times> real) \<times> (real \<times> real)"

text \<open>The parameter dictionary \<open>param\<close>, with the keys the two-dimensional routines read.\<close>

record param =
  mass :: real
  n_dim :: int
  n_bead :: int
  vdw_sigma :: real
  vdw_epsilon :: real
  rc :: real
  bond_r0 :: real
  bond_k0 :: real
  angle_k0 :: real
  sigma :: real
  gamma :: real
  lambda_p :: real
  P_0 :: real

subsection \<open>numpy primitives\<close>

text \<open>\<open>np.array(x, dtype=int)\<close> on a float: truncation towards zero.\<close>

definition trunc_int :: "real \<Rightarrow> int" where
  "trunc_int x = (if 0 \<le> x then \<lfloor>x\<rfloor> else - \<lfloor>- x\<rfloor>)"

text \<open>An integer index into an axis of length \<open>n\<close>: negative indices count from the end.\<close>

definition norm_index :: "nat \<Rightarrow> int \<Rightarrow> error + nat" where
  "norm_index n i =
     (if 0 \<le> i \<and> i < int n then Inr (nat i)
      else if - int n \<le> i \<and> i < 0 then Inr (nat (i + int n))
      else Inl IndexError)"

fun sequence :: "(error + 'a) list \<Rightarrow> error + 'a list" where
  "sequence [] = Inr []"
| "sequence (x # xs) =
     (case x of
        Inl e \<Rightarrow> Inl e
      | Inr v \<Rightarrow> (case sequence xs of Inl e \<Rightarrow> Inl e | Inr vs \<Rightarrow> Inr (v # vs)))"

definition norm_indices :: "nat \<Rightarrow> int list \<Rightarrow> error + nat list" where
  "norm_indices n is = sequence (map (norm_index n) is)"

text \<open>A pair of index arrays \<open>(rows, cols)\<close> into an array of shape \<open>(m, n)\<close>, kept as
  the list of its \<open>(row, col)\<close> entries.\<close>

definition norm_index2 :: "nat \<Rightarrow> nat \<Rightarrow> int \<times> int \<Rightarrow> error + nat \<times> nat" where
  "norm_index2 m n ij =
     (case norm_index m (fst ij) of
        Inl e \<Rightarrow> Inl e
      | Inr r \<Rightarrow> (case norm_index n (snd ij) of Inl e \<Rightarrow> Inl e | Inr c \<Rightarrow> Inr (r, c)))"

definition norm_indices2 :: "nat \<Rightarrow> nat \<Rightarrow> (int \<times> int) list \<Rightarrow> error + (nat \<times> nat) list" where
  "norm_indices2 m n is = sequence (map (norm_index2 m n) is)"

text \<open>Broadcasting a one-dimensional value array to \<open>k\<close> entries.\<close>

definition broadcast_to :: "nat \<Rightarrow> 'a list \<Rightarrow> error + 'a list" where
  "broadcast_to k vals =
     (if length vals = k then Inr vals
      else if length vals = 1 then Inr (replicate k (hd vals))
      else Inl ValueError)"

text \<open>\<open>np.reshape(v, (n/2, 2))\<close>: consecutive entries paired.\<close>

fun pairs_of :: "'a list \<Rightarrow> ('a \<times> 'a) list" where
  "pairs_of (x # y # zs) = (x, y) # pairs_of zs"
| "pairs_of zs = []"

subsection \<open>cos\_sin\_theta\<close>

text \<open>
  \<open>vector\<close> has shape \<open>(n_vector, 2)\<close> (the determinant of the source needs
  \<open>n_dim = 2\<close>); both reshapes raise ValueError when the sizes do not fit.
\<close>

definition cos_sin_theta :: "vec2 list \<Rightarrow> real list \<Rightarrow> error + real list \<times> real list \<times> real list" where
  "cos_sin_theta vector r_vector =
     (if odd (length vector) \<or> length r_vector \<noteq> length vector then Inl ValueError
      else
        let temp_vector = pairs_of vector;
            r_prod = map (\<lambda>(ra, rb). ra * rb) (pairs_of r_vector);
            dot_prod = map (\<lambda>((ax, ay), (bx, by)). ax * bx + ay * by) temp_vector;
            cross_prod = map (\<lambda>((ax, ay), (bx, by)). ax * by - ay * bx) temp_vector;
            cos_the = map2 (\<lambda>d r. d / r) dot_prod r_prod;
            sin_the = map2 (\<lambda>c r. c / r) cross_prod r_prod
        in Inr (cos_the, sin_the, r_prod))"


subsection \<open>The utilities module\<close>

text \<open>
  \<open>calc_energy_forces\<close> calls the module \<open>utilities\<close> (imported as \<open>ut\<close>), which
  is not among the sources. Its element-wise functions are a parameter of the model: a
  record of functions, applied to each array entry.
\<close>

record utilities =
  pot_vdw :: "real \<Rightarrow> real \<Rightarrow> real \<Rightarrow> real"
  force_vdw :: "real \<Rightarrow> real \<Rightarrow> real \<Rightarrow> real"
  pot_harmonic :: "real \<Rightarrow> real \<Rightarrow> real \<Rightarrow> real"
  force_harmonic :: "real \<Rightarrow> real \<Rightarrow> real \<Rightarrow> real"
  check_cutoff :: "real \<Rightarrow> real \<Rightarrow> real"
  kin_energy :: "vec2 list \<Rightarrow> real \<Rightarrow> int \<Rightarrow> real"

text \<open>
  Modelled from the spec: the functions of \<open>utilities\<close>, absent from the sources. The
  bonded term is the harmonic potential \<open>0.5 k0 (r - r0)\<^sup>2\<close> with radial force
  \<open>- k0 (r - r0)\<close>; the non-bonded term is a Lennard-Jones potential of the squared
  distance; the cutoff check selects the squared distances below \<open>rc\<^sup>2\<close>; the kinetic
  energy is \<open>0.5 m v\<^sup>2\<close> summed over the beads. The two Lennard-Jones functions
  divide by the squared distance: \<open>calc_energy_forces\<close> calls them at the squared
  distances of \<open>non_zero\<close>, which are not zero, and at \<open>rc\<^sup>2\<close>, which is not zero
  in any evaluation below.
\<close>

definition ut_spec :: utilities where
  "ut_spec =
     \<lparr> pot_vdw = (\<lambda>r2 sg ep. 4 * ep * ((sg\<^sup>2 / r2) ^ 6 - (sg\<^sup>2 / r2) ^ 3)),
       force_vdw = (\<lambda>r2 sg ep. - 24 * ep * (2 * (sg\<^sup>2 / r2) ^ 6 - (sg\<^sup>2 / r2) ^ 3)),
       pot_harmonic = (\<lambda>r r0 k0. 0.5 * k0 * (r - r0)\<^sup>2),
       force_harmonic = (\<lambda>r r0 k0. - k0 * (r - r0)),
       check_cutoff = (\<lambda>r2 t. if r2 < t then 1 else 0),
       kin_energy = (\<lambda>vel m nd. 0.5 * m * sum_list (map (\<lambda>v. (fst v)\<^sup>2 + (snd v)\<^sup>2) vel)) \<rparr>"


text \<open>
  Modelled from the spec: the geometry kernel \<open>ut.get_distances_mpi\<close>, absent from the
  sources. For every pair it returns the minimum-image displacement, the nearest integer
  multiple of the box length subtracted along each axis. The source sums the pair arrays
  over their first axis into the per-bead force array, and its docstring gives them the
  shape \<open>(2, n_bead, n_bead)\<close>: the result has one row for each entry of
  \<open>pos_indices\<close> and one column for each bead, the pair of row \<open>m\<close> and column
  \<open>q\<close> being the beads \<open>pos_indices[m]\<close> and \<open>q\<close>. The two components of a
  displacement are kept together as a pair.
\<close>

definition min_image :: "real \<Rightarrow> real \<Rightarrow> real" where
  "min_image l d = d - l * real_of_int (round (d / l))"

definition get_distances_mpi :: "vec2 list \<Rightarrow> int list \<Rightarrow> vec2 \<Rightarrow> error + vec2 list list" where
  "get_distances_mpi pos indices cell_dim =
     (case norm_indices (length pos) indices of
        Inl e \<Rightarrow> Inl e
      | Inr rows \<Rightarrow>
          Inr (map (\<lambda>m. map (\<lambda>q. (min_image (fst cell_dim) (fst (pos ! m) - fst q),
                                     min_image (snd cell_dim) (snd (pos ! m) - snd q))) pos) rows))"

text \<open>\<open>np.sum(d**2, axis=0)\<close> at one pair.\<close>

definition sq_len :: "vec2 \<Rightarrow> real" where
  "sq_len d = (fst d)\<^sup>2 + (snd d)\<^sup>2"

subsection \<open>calc\_energy\_forces: state and index structures\<close>

text \<open>The variables the blocks of \<open>calc_energy_forces\<close> accumulate into.\<close>

record accum =
  pot_energy :: real
  f_beads_x :: "real list"
  f_beads_y :: "real list"
  virial_tensor :: mat2

text \<open>
  The index structures of one process. \<open>bond_indices\<close>, \<open>frc_indices\<close> and
  \<open>virial_indicies\<close> are pairs of index arrays \<open>(rows, cols)\<close>, kept as lists of
  \<open>(row, col)\<close> entries; \<open>angle_bond_indices\<close> is the pair of bead index arrays
  \<open>([a...], [b...])\<close>, kept as the list of \<open>(a, b)\<close>; \<open>angle_indices\<close> has shape
  \<open>(n_angle, 3)\<close>; \<open>vdw_coeff\<close> is a two-dimensional array, a list of rows.
\<close>

record indices =
  pos_indices :: "int list"
  bond_indices :: "(int \<times> int) list"
  frc_indices :: "(int \<times> int) list"
  angle_indices :: "(int \<times> int \<times> int) list"
  angle_bond_indices :: "(int \<times> int) list"
  vdw_coeff :: "real list list"
  virial_indicies :: "(int \<times> int) list"

text \<open>
  \<open>temp = np.zeros(...); temp[idx] += vals\<close>: the entry of \<open>temp\<close> at position
  \<open>p\<close>. numpy reads \<open>temp[idx]\<close>, adds, and writes the sums back one after the other,
  so of several values for one position the last one stays.
\<close>

definition scatter_zeros :: "('i \<times> 'v) list \<Rightarrow> 'i \<Rightarrow> 'v::zero" where
  "scatter_zeros ivs p = (case map_of (rev ivs) p of None \<Rightarrow> 0 | Some v \<Rightarrow> v)"

text \<open>\<open>f[idx] += vals\<close> on a one-dimensional array, with the same buffered semantics.\<close>

definition iadd_at :: "real list \<Rightarrow> int list \<Rightarrow> real list \<Rightarrow> error + real list" where
  "iadd_at f idx vals =
     (case norm_indices (length f) idx of
        Inl e \<Rightarrow> Inl e
      | Inr ks \<Rightarrow>
          (case broadcast_to (length ks) vals of
             Inl e \<Rightarrow> Inl e
           | Inr vs \<Rightarrow> Inr (fold (\<lambda>(k, v) g. g[k := f ! k + v]) (zip ks vs) f)))"

subsection \<open>calc\_energy\_forces: the bonded block\<close>

text \<open>\<open>np.sum(temp, axis=1)\<close> at row \<open>r\<close> of an array with \<open>n\<close> columns.\<close>

definition row_sum :: "nat \<Rightarrow> (nat \<times> nat \<Rightarrow> real) \<Rightarrow> nat \<Rightarrow> real" where
  "row_sum n temp r = sum_list (map (\<lambda>c. temp (r, c)) [0..<n])"

text \<open>
  Lines 141 to 154 for one bonded pair with displacement \<open>d\<close>: the entry of
  \<open>bond_pot\<close> and the two values written to \<open>temp_frc[0]\<close> and \<open>temp_frc[1]\<close>.
\<close>

definition bond_term :: "utilities \<Rightarrow> param \<Rightarrow> vec2 \<Rightarrow> real \<times> vec2" where
  "bond_term ut p d =
     (let bond_r = sqrt (sq_len d);
          bond_pot = pot_harmonic ut bond_r (bond_r0 p) (bond_k0 p);
          bond_frc = force_harmonic ut bond_r (bond_r0 p) (bond_k0 p)
      in (bond_pot, (bond_frc * fst d / bond_r, bond_frc * snd d / bond_r)))"

text \<open>
  Lines 140 to 157. \<open>pair_dist\<close> has the shape \<open>(len(pos_indices), n)\<close>, \<open>temp_frc\<close>
  the shape \<open>(n, n)\<close>, with \<open>n\<close> the number of beads.
\<close>

definition bond_block ::
  "utilities \<Rightarrow> param \<Rightarrow> nat \<Rightarrow> vec2 list list \<Rightarrow> (int \<times> int) list \<Rightarrow> (int \<times> int) list
     \<Rightarrow> accum \<Rightarrow> error + accum" where
  "bond_block ut p n pair_dist bond_idx frc_idx acc =
     (case norm_indices2 (length pair_dist) n bond_idx of
        Inl e \<Rightarrow> Inl e
      | Inr bidx \<Rightarrow>
          let terms = map (\<lambda>(r, c). bond_term ut p (pair_dist ! r ! c)) bidx;
              bond_pot = map fst terms;
              vals_x = map (\<lambda>t. fst (snd t)) terms;
              vals_y = map (\<lambda>t. snd (snd t)) terms
          in
            (case norm_indices2 n n frc_idx of
               Inl e \<Rightarrow> Inl e
             | Inr fidx \<Rightarrow>
                 (case broadcast_to (length fidx) vals_x of
                    Inl e \<Rightarrow> Inl e
                  | Inr bx \<Rightarrow>
                      (case broadcast_to (length fidx) vals_y of
                         Inl e \<Rightarrow> Inl e
                       | Inr by \<Rightarrow>
                           Inr (acc\<lparr>pot_energy := pot_energy acc + 0.5 * sum_list bond_pot,
                                    f_beads_x := map (\<lambda>r. f_beads_x acc ! r
                                                       + row_sum n (scatter_zeros (zip fidx bx)) r) [0..<n],
                                    f_beads_y := map (\<lambda>r. f_beads_y acc ! r
                                                       + row_sum n (scatter_zeros (zip fidx by)) r) [0..<n]\<rparr>)))))"

subsection \<open>calc\_energy\_forces: the angular block\<close>

text \<open>Line 165: the image correction of one component of an angle bond vector.\<close>

definition angle_image :: "real \<Rightarrow> real \<Rightarrow> real" where
  "angle_image l d = d - l * real_of_int (trunc_int (2 * d / l))"

text \<open>
  Lines 164 and 165. The loop runs over \<open>range(n_dim)\<close>; \<open>angle_dist\<close> has two rows,
  so a third turn raises IndexError.
\<close>

definition angle_dist_of :: "param \<Rightarrow> vec2 list \<Rightarrow> vec2 \<Rightarrow> (int \<times> int) list \<Rightarrow> error + vec2 list" where
  "angle_dist_of p pos cell_dim abi =
     (case norm_indices (length pos) (map fst abi) of
        Inl e \<Rightarrow> Inl e
      | Inr ia \<Rightarrow>
          (case norm_indices (length pos) (map snd abi) of
             Inl e \<Rightarrow> Inl e
           | Inr ib \<Rightarrow>
               if 2 < n_dim p then Inl IndexError
               else Inr (map2 (\<lambda>a b.
                     let dx = fst (pos ! a) - fst (pos ! b);
                         dy = snd (pos ! a) - snd (pos ! b)
                     in (if 1 \<le> n_dim p then angle_image (fst cell_dim) dx else dx,
                         if 2 \<le> n_dim p then angle_image (snd cell_dim) dy else dy)) ia ib)))"

text \<open>
  Lines 178 to 195 for one angle: the bond vectors \<open>v1\<close>, \<open>v2\<close> of lengths
  \<open>r1\<close>, \<open>r2\<close>, the sine \<open>s\<close> and the product \<open>rp\<close> of the lengths. The result is
  the rows of \<open>frc_angle_ij\<close> at the even and at the odd index and, between them, the row
  of \<open>frc_angle_k\<close>. The divisors are the lengths of the two bond vectors and their
  product: for a bond vector of length zero (two beads of a triplet at one place) the
  source returns NaN, which the model does not have.
\<close>

definition frc_angle :: "real \<Rightarrow> vec2 \<times> vec2 \<Rightarrow> real \<times> real \<Rightarrow> real \<Rightarrow> real \<Rightarrow> vec2 \<times> vec2 \<times> vec2" where
  "frc_angle k0 vv rr s rp =
     (let v1 = fst vv; v2 = snd vv; r1 = fst rr; r2 = snd rr;
          r_left1 = (fst v1 / rp, snd v1 / rp);
          r_left2 = (fst v2 / rp, snd v2 / rp);
          r_right1 = (s * fst v1 / r1\<^sup>2, s * snd v1 / r1\<^sup>2);
          r_right2 = (s * fst v2 / r2\<^sup>2, s * snd v2 / r2\<^sup>2);
          ij = (k0 * (fst r_left1 - fst r_right2), k0 * (snd r_left1 - snd r_right2));
          jk = (k0 * (fst r_left2 - fst r_right1), k0 * (snd r_left2 - snd r_right1));
          k = (- (fst ij + fst jk), - (snd ij + snd jk))
      in (ij, k, jk))"

text \<open>Lines 178 to 195 for all angles: \<open>np.reshape\<close> pairs the rows of \<open>vector\<close>.\<close>

definition frc_angles ::
  "real \<Rightarrow> vec2 list \<Rightarrow> real list \<Rightarrow> real list \<Rightarrow> real list \<Rightarrow> (vec2 \<times> vec2 \<times> vec2) list" where
  "frc_angles k0 vector r_vector sin_the r_prod =
     map (\<lambda>((vv, rr), (s, rp)). frc_angle k0 vv rr s rp)
       (zip (zip (pairs_of vector) (pairs_of r_vector)) (zip sin_the r_prod))"

text \<open>
  The statements of a \<open>try\<close> body whose handler is \<open>except IndexError: pass\<close>: an
  IndexError ends the body and keeps what the earlier statements wrote, another error
  leaves the function.
\<close>

fun try_steps :: "('s \<Rightarrow> error + 's) list \<Rightarrow> 's \<Rightarrow> error + 's" where
  "try_steps [] s = Inr s"
| "try_steps (f # fs) s =
     (case f s of
        Inl IndexError \<Rightarrow> Inr s
      | Inl ValueError \<Rightarrow> Inl ValueError
      | Inr s' \<Rightarrow> try_steps fs s')"

definition add_x :: "int list \<Rightarrow> real list \<Rightarrow> accum \<Rightarrow> error + accum" where
  "add_x idx vals acc =
     (case iadd_at (f_beads_x acc) idx vals of
        Inl e \<Rightarrow> Inl e
      | Inr f \<Rightarrow> Inr (acc\<lparr>f_beads_x := f\<rparr>))"

definition add_y :: "int list \<Rightarrow> real list \<Rightarrow> accum \<Rightarrow> error + accum" where
  "add_y idx vals acc =
     (case iadd_at (f_beads_y acc) idx vals of
        Inl e \<Rightarrow> Inl e
      | Inr f \<Rightarrow> Inr (acc\<lparr>f_beads_y := f\<rparr>))"

text \<open>Lines 163 to 206.\<close>

definition angle_block ::
  "param \<Rightarrow> vec2 list \<Rightarrow> vec2 \<Rightarrow> (int \<times> int \<times> int) list \<Rightarrow> (int \<times> int) list
     \<Rightarrow> accum \<Rightarrow> error + accum" where
  "angle_block p pos cell_dim angle_idx angle_bond_idx acc =
     (case angle_dist_of p pos cell_dim angle_bond_idx of
        Inl IndexError \<Rightarrow> Inr acc
      | Inl ValueError \<Rightarrow> Inl ValueError
      | Inr vector \<Rightarrow>
          let r_vector = map (\<lambda>d. sqrt (sq_len d)) vector in
          (case cos_sin_theta vector r_vector of
             Inl IndexError \<Rightarrow> Inr acc
           | Inl ValueError \<Rightarrow> Inl ValueError
           | Inr (cos_the, sin_the, r_prod) \<Rightarrow>
               let acc1 = acc\<lparr>pot_energy := pot_energy acc
                                + angle_k0 p * sum_list (map (\<lambda>c. c + 1) cos_the)\<rparr>;
                   frc = frc_angles (angle_k0 p) vector r_vector sin_the r_prod;
                   frc_ij = map fst frc;
                   frc_k = map (\<lambda>t. fst (snd t)) frc;
                   frc_jk = map (\<lambda>t. snd (snd t)) frc;
                   bead_i = map fst angle_idx;
                   bead_j = map (\<lambda>t. fst (snd t)) angle_idx;
                   bead_k = map (\<lambda>t. snd (snd t)) angle_idx
               in try_steps
                    [add_x bead_i (map fst frc_ij), add_x bead_j (map fst frc_k),
                     add_x bead_k (map fst frc_jk),
                     add_y bead_i (map snd frc_ij), add_y bead_j (map snd frc_k),
                     add_y bead_k (map snd frc_jk)] acc1))"

subsection \<open>calc\_energy\_forces: the non-bonded block\<close>

text \<open>\<open>vdw_coeff[non_zero]\<close> at one position.\<close>

definition coeff_at :: "real list list \<Rightarrow> nat \<Rightarrow> nat \<Rightarrow> error + real" where
  "coeff_at coeff m q =
     (if m < length coeff \<and> q < length (coeff ! m) then Inr (coeff ! m ! q) else Inl IndexError)"

text \<open>
  Lines 208 to 218 at the pair of row \<open>m\<close> and column \<open>q\<close> with displacement \<open>d\<close>:
  the entry of \<open>nonbond_pot\<close> and the entries of \<open>temp_xy[0]\<close> and \<open>temp_xy[1]\<close>.
  A pair outside \<open>non_zero\<close> has no entry in \<open>nonbond_pot\<close> and zero entries in
  \<open>temp_xy\<close>; it adds nothing to the sums.
\<close>

definition nonbond_entry ::
  "utilities \<Rightarrow> param \<Rightarrow> real list list \<Rightarrow> nat \<Rightarrow> nat \<Rightarrow> vec2 \<Rightarrow> error + real \<times> vec2" where
  "nonbond_entry ut p coeff m q d =
     (let cut_frc = force_vdw ut ((rc p)\<^sup>2) (vdw_sigma p) (vdw_epsilon p);
          cut_pot = pot_vdw ut ((rc p)\<^sup>2) (vdw_sigma p) (vdw_epsilon p);
          pair_r2 = sq_len d;
          verlet = check_cutoff ut pair_r2 ((rc p)\<^sup>2)
      in if pair_r2 * verlet = 0 then Inr (0, (0, 0))
         else
           (case coeff_at coeff m q of
              Inl e \<Rightarrow> Inl e
            | Inr c \<Rightarrow>
                let nonbond_pot = c * pot_vdw ut (pair_r2 * verlet) (vdw_sigma p) (vdw_epsilon p)
                                    - cut_pot;
                    nonbond_frc = c * force_vdw ut (pair_r2 * verlet) (vdw_sigma p) (vdw_epsilon p)
                                    - cut_frc
                in Inr (nonbond_pot,
                        (nonbond_frc * (fst d / pair_r2), nonbond_frc * (snd d / pair_r2)))))"

definition nonbond_entries ::
  "utilities \<Rightarrow> param \<Rightarrow> real list list \<Rightarrow> vec2 list list \<Rightarrow> error + (real \<times> vec2) list list" where
  "nonbond_entries ut p coeff pair_dist =
     sequence (map (\<lambda>(m, row). sequence (map (\<lambda>(q, d). nonbond_entry ut p coeff m q d)
                                              (enumerate 0 row)))
                   (enumerate 0 pair_dist))"

text \<open>The two components of a pair, as the axis index of the source selects them.\<close>

definition component :: "nat \<Rightarrow> vec2 \<Rightarrow> real" where
  "component i v = (if i = 0 then fst v else snd v)"

text \<open>Line 220: the sum added to \<open>virial_tensor[i][j]\<close>.\<close>

definition virial_sum ::
  "(real \<times> vec2) list list \<Rightarrow> vec2 list list \<Rightarrow> (nat \<times> nat) list \<Rightarrow> nat \<Rightarrow> nat \<Rightarrow> real" where
  "virial_sum ents pair_dist vidx i j =
     sum_list (map (\<lambda>(m, q). component i (snd (ents ! m ! q)) * component i (pair_dist ! m ! q)
                               * component j (pair_dist ! m ! q)) vidx)"

text \<open>\<open>np.sum(temp, axis=0)\<close> at column \<open>q\<close>.\<close>

definition col_sum :: "real list list \<Rightarrow> nat \<Rightarrow> real" where
  "col_sum temp q = sum_list (map (\<lambda>row. row ! q) temp)"

text \<open>Lines 208 to 223. \<open>np.nansum\<close> is the sum: the reals have no NaN to leave out.\<close>

definition nonbond_block ::
  "utilities \<Rightarrow> param \<Rightarrow> nat \<Rightarrow> vec2 list list \<Rightarrow> real list list \<Rightarrow> (int \<times> int) list
     \<Rightarrow> accum \<Rightarrow> error + accum" where
  "nonbond_block ut p n pair_dist coeff virial_idx acc =
     (case nonbond_entries ut p coeff pair_dist of
        Inl e \<Rightarrow> Inl e
      | Inr ents \<Rightarrow>
          (case norm_indices2 (length pair_dist) n virial_idx of
             Inl e \<Rightarrow> Inl e
           | Inr vidx \<Rightarrow>
               let vt = virial_tensor acc;
                   temp_x = map (map (\<lambda>e. fst (snd e))) ents;
                   temp_y = map (map (\<lambda>e. snd (snd e))) ents
               in Inr (acc\<lparr>pot_energy := pot_energy acc
                                 + sum_list (map (\<lambda>row. sum_list (map fst row)) ents) / 2,
                           virial_tensor :=
                             ((fst (fst vt) + virial_sum ents pair_dist vidx 0 0,
                               snd (fst vt) + virial_sum ents pair_dist vidx 0 1),
                              (fst (snd vt) + virial_sum ents pair_dist vidx 1 0,
                               snd (snd vt) + virial_sum ents pair_dist vidx 1 1)),
                           f_beads_x := map (\<lambda>q. f_beads_x acc ! q + col_sum temp_x q) [0..<n],
                           f_beads_y := map (\<lambda>q. f_beads_y acc ! q + col_sum temp_y q) [0..<n]\<rparr>)))"

subsection \<open>calc\_energy\_forces\<close>

definition acc_zero :: "nat \<Rightarrow> accum" where
  "acc_zero n = \<lparr>pot_energy = 0, f_beads_x = replicate n 0, f_beads_y = replicate n 0,
                 virial_tensor = ((0, 0), (0, 0))\<rparr>"

text \<open>The result is the tuple \<open>(pot_energy, frc_beads, virial_tensor)\<close>.\<close>

definition calc_energy_forces ::
  "utilities \<Rightarrow> vec2 list \<Rightarrow> vec2 \<Rightarrow> indices \<Rightarrow> param \<Rightarrow> error + real \<times> vec2 list \<times> mat2" where
  "calc_energy_forces ut pos cell_dim ix p =
     (let n = length pos;
          n_bond = length (bond_indices ix)
      in case get_distances_mpi pos (pos_indices ix) cell_dim of
           Inl e \<Rightarrow> Inl e
         | Inr pair_dist \<Rightarrow>
             (case (if 0 < n_bond
                    then (case bond_block ut p n pair_dist (bond_indices ix) (frc_indices ix)
                                 (acc_zero n) of
                            Inl e \<Rightarrow> Inl e
                          | Inr acc1 \<Rightarrow>
                              angle_block p pos cell_dim (angle_indices ix)
                                (angle_bond_indices ix) acc1)
                    else Inr (acc_zero n)) of
                Inl e \<Rightarrow> Inl e
              | Inr acc2 \<Rightarrow>
                  (case nonbond_block ut p n pair_dist (vdw_coeff ix) (virial_indicies ix) acc2 of
                     Inl e \<Rightarrow> Inl e
                   | Inr acc3 \<Rightarrow>
                       Inr (pot_energy acc3, zip (f_beads_x acc3) (f_beads_y acc3),
                            virial_tensor acc3))))"

subsection \<open>The integrator: kinematic update and periodic wrap\<close>

text \<open>A binary operation on two bead arrays, with numpy's broadcasting of the rows.\<close>

definition bc2 :: "(vec2 \<Rightarrow> vec2 \<Rightarrow> vec2) \<Rightarrow> vec2 list \<Rightarrow> vec2 list \<Rightarrow> error + vec2 list" where
  "bc2 f a b =
     (if length a = length b then Inr (map2 f a b)
      else if length a = 1 then Inr (map (f (hd a)) b)
      else if length b = 1 then Inr (map (\<lambda>x. f x (hd b)) a)
      else Inl ValueError)"

text \<open>The in-place \<open>a += b\<close>: \<open>b\<close> must broadcast to the shape of \<open>a\<close>.\<close>

definition iadd :: "vec2 list \<Rightarrow> vec2 list \<Rightarrow> error + vec2 list" where
  "iadd a b =
     (if length b = length a then Inr (map2 (\<lambda>x y. (fst x + fst y, snd x + snd y)) a b)
      else if length b = 1 then Inr (map (\<lambda>x. (fst x + fst (hd b), snd x + snd (hd b))) a)
      else Inl ValueError)"

text \<open>
  The draw \<open>np.random.normal(0, 1, (n_bead, n_dim))\<close>. The random source is the argument
  \<open>noise\<close>, the value drawn for each bead and axis. The draw is used against arrays
  with two columns: its columns broadcast when \<open>n_dim\<close> is 1, and the first operation
  raises ValueError when \<open>n_dim\<close> is neither 1 nor 2.
\<close>

definition draw_beta :: "(nat \<Rightarrow> nat \<Rightarrow> real) \<Rightarrow> param \<Rightarrow> error + vec2 list" where
  "draw_beta noise p =
     (if n_bead p < 0 \<or> n_dim p < 0 then Inl ValueError
      else if n_dim p = 2 then Inr (map (\<lambda>i. (noise i 0, noise i 1)) [0..<nat (n_bead p)])
      else if n_dim p = 1 then Inr (map (\<lambda>i. (noise i 0, noise i 0)) [0..<nat (n_bead p)])
      else Inl ValueError)"

text \<open>
  Lines 311 and 312. A negative base of the cube root is a NaN in the source; the model
  has the value of \<open>powr\<close> there, and no theorem below depends on it.
\<close>

definition npt_mu :: "utilities \<Rightarrow> param \<Rightarrow> vec2 list \<Rightarrow> mat2 \<Rightarrow> vec2 \<Rightarrow> real" where
  "npt_mu ut p vel vt cell_dim =
     (let kin = kin_energy ut vel (mass p) (n_dim p);
          P_t = 1 / (fst cell_dim * snd cell_dim * real_of_int (n_dim p))
                  * (kin - 0.5 * (fst (fst vt) + snd (snd vt)))
      in (1 + lambda_p p * (P_t - P_0 p)) powr (1 / 3))"

text \<open>
  Lines 307 to 320 (414 to 427 of the distributed variant): the positions before the
  wrap, the velocities and the box.
\<close>

definition kinematic_update ::
  "utilities \<Rightarrow> vec2 list \<Rightarrow> vec2 list \<Rightarrow> vec2 list \<Rightarrow> vec2 list \<Rightarrow> mat2 \<Rightarrow> param \<Rightarrow> real \<Rightarrow> vec2
     \<Rightarrow> bool \<Rightarrow> error + vec2 list \<times> vec2 list \<times> vec2" where
  "kinematic_update ut beta pos vel frc vt p dt cell_dim NPT =
     (case iadd vel (map (\<lambda>f. (fst f / mass p * dt, snd f / mass p * dt)) frc) of
        Inl e \<Rightarrow> Inl e
      | Inr vel1 \<Rightarrow>
          let mu = npt_mu ut p vel1 vt cell_dim in
          (case bc2 (\<lambda>b v. (sigma p * fst b - gamma p * fst v, sigma p * snd b - gamma p * snd v))
                  beta vel1 of
             Inl e \<Rightarrow> Inl e
           | Inr d_vel \<Rightarrow>
               (case bc2 (\<lambda>v d. ((fst v + 0.5 * fst d) * dt, (snd v + 0.5 * snd d) * dt))
                       vel1 d_vel of
                  Inl e \<Rightarrow> Inl e
                | Inr step \<Rightarrow>
                    (case iadd pos step of
                       Inl e \<Rightarrow> Inl e
                     | Inr pos1 \<Rightarrow>
                         (case iadd vel1 d_vel of
                            Inl e \<Rightarrow> Inl e
                          | Inr vel2 \<Rightarrow>
                              if NPT
                              then Inr (map (\<lambda>x. (mu * fst x, mu * snd x)) pos1, vel2,
                                        (mu * fst cell_dim, mu * snd cell_dim))
                              else Inr (pos1, vel2, cell_dim))))))"

text \<open>Line 323 at one component \<open>x\<close> of a position, with box length \<open>l\<close>: the shift
  added to the component. The sum and the quotient are those of the reals; the source
  rounds both to double precision before \<open>int\<close> truncates.\<close>

definition wrap_shift :: "real \<Rightarrow> real \<Rightarrow> real" where
  "wrap_shift l x = l * (1 - real_of_int (trunc_int ((x + l) / l)))"

text \<open>Lines 322 and 323 (429 and 430).\<close>

definition periodic_wrap :: "param \<Rightarrow> vec2 \<Rightarrow> vec2 list \<Rightarrow> error + vec2 list" where
  "periodic_wrap p cell_dim pos =
     (let cell = replicate (nat (n_bead p)) cell_dim in
      case bc2 (\<lambda>x c. (wrap_shift (fst c) (fst x), wrap_shift (snd c) (snd x))) pos cell of
        Inl e \<Rightarrow> Inl e
      | Inr shift \<Rightarrow> iadd pos shift)"

subsection \<open>velocity\_verlet\_alg\<close>

text \<open>
  Modelled from the spec: \<open>ut.get_distances\<close>, absent from the sources, the geometry
  kernel over all pairs of beads.
\<close>

definition get_distances :: "vec2 list \<Rightarrow> vec2 \<Rightarrow> vec2 list list" where
  "get_distances pos cell_dim =
     map (\<lambda>a. map (\<lambda>q. (min_image (fst cell_dim) (fst a - fst q),
                          min_image (snd cell_dim) (snd a - snd q))) pos) pos"

text \<open>The result is the tuple \<open>(pos, vel, frc, cell_dim, pot_energy, virial_tensor, r2)\<close>.\<close>

definition velocity_verlet_alg ::
  "utilities \<Rightarrow> (nat \<Rightarrow> nat \<Rightarrow> real) \<Rightarrow> vec2 list \<Rightarrow> vec2 list \<Rightarrow> vec2 list \<Rightarrow> mat2 \<Rightarrow> param
     \<Rightarrow> indices \<Rightarrow> real \<Rightarrow> real \<Rightarrow> vec2 \<Rightarrow> bool
     \<Rightarrow> error + vec2 list \<times> vec2 list \<times> vec2 list \<times> vec2 \<times> real \<times> mat2 \<times> real list list" where
  "velocity_verlet_alg ut noise pos vel frc vt p ix dt sqrt_dt cell_dim NPT =
     (case draw_beta noise p of
        Inl e \<Rightarrow> Inl e
      | Inr beta \<Rightarrow>
          (case kinematic_update ut beta pos vel frc vt p dt cell_dim NPT of
             Inl e \<Rightarrow> Inl e
           | Inr (pos1, vel1, cell1) \<Rightarrow>
               (case periodic_wrap p cell1 pos1 of
                  Inl e \<Rightarrow> Inl e
                | Inr pos2 \<Rightarrow>
                    let r2 = map (map sq_len) (get_distances pos2 cell1) in
                    (case calc_energy_forces ut pos2 cell1 ix p of
                       Inl e \<Rightarrow> Inl e
                     | Inr (pot, frc1, vt1) \<Rightarrow> Inr (pos2, vel1, frc1, cell1, pot, vt1, r2)))))"

subsection \<open>velocity\_verlet\_alg\_mpi\<close>

text \<open>\<open>comm.allreduce(x, op=MPI.SUM)\<close> on the arrays of all ranks, in rank order.\<close>

definition vec_add :: "vec2 \<Rightarrow> vec2 \<Rightarrow> vec2" where
  "vec_add x y = (fst x + fst y, snd x + snd y)"

definition mat2_add :: "mat2 \<Rightarrow> mat2 \<Rightarrow> mat2" where
  "mat2_add s v = (vec_add (fst s) (fst v), vec_add (snd s) (snd v))"

definition sum_frc :: "nat \<Rightarrow> vec2 list list \<Rightarrow> vec2 list" where
  "sum_frc n fs = fold (\<lambda>f s. map2 vec_add s f) fs (replicate n (0, 0))"

definition sum_virial :: "mat2 list \<Rightarrow> mat2" where
  "sum_virial vs = fold (\<lambda>v s. mat2_add s v) vs ((0, 0), (0, 0))"

text \<open>
  The processes run the same program in lock-step on replicated \<open>pos\<close>, \<open>vel\<close>,
  \<open>frc\<close> and box, each with its own index structures: \<open>slices ! rank\<close> are those of
  process \<open>rank\<close>, and the result lists what every rank returns, the tuple
  \<open>(pos, vel, frc, cell_dim, pot_energy, virial_tensor)\<close>. Rank 0 draws \<open>beta\<close>, which
  \<open>comm.bcast\<close> hands to all. \<open>comm.gather(pot_energy, root=0)\<close> is the list of the
  partial energies on rank 0 and \<open>None\<close> on every other rank, where \<open>np.sum(None)\<close>
  is \<open>None\<close>: the returned energy is an option. An exception on one rank leaves the
  collective step without a result.
\<close>

definition velocity_verlet_alg_mpi ::
  "utilities \<Rightarrow> (nat \<Rightarrow> nat \<Rightarrow> real) \<Rightarrow> vec2 list \<Rightarrow> vec2 list \<Rightarrow> vec2 list \<Rightarrow> mat2 \<Rightarrow> param
     \<Rightarrow> indices list \<Rightarrow> real \<Rightarrow> real \<Rightarrow> vec2 \<Rightarrow> bool
     \<Rightarrow> error + (vec2 list \<times> vec2 list \<times> vec2 list \<times> vec2 \<times> real option \<times> mat2) list" where
  "velocity_verlet_alg_mpi ut noise pos vel frc vt p slices dt sqrt_dt cell_dim NPT =
     (case draw_beta noise p of
        Inl e \<Rightarrow> Inl e
      | Inr beta \<Rightarrow>
          (case kinematic_update ut beta pos vel frc vt p dt cell_dim NPT of
             Inl e \<Rightarrow> Inl e
           | Inr (pos1, vel1, cell1) \<Rightarrow>
               (case periodic_wrap p cell1 pos1 of
                  Inl e \<Rightarrow> Inl e
                | Inr pos2 \<Rightarrow>
                    (case sequence (map (\<lambda>ix. calc_energy_forces ut pos2 cell1 ix p) slices) of
                       Inl e \<Rightarrow> Inl e
                     | Inr parts \<Rightarrow>
                         let gathered = map fst parts;
                             frc1 = sum_frc (length pos2) (map (\<lambda>r. fst (snd r)) parts);
                             vt1 = sum_virial (map (\<lambda>r. snd (snd r)) parts)
                         in Inr (map (\<lambda>rank. (pos2, vel1, frc1, cell1,
                                               if rank = 0 then Some (sum_list gathered) else None,
                                               vt1))
                                   [0..<length slices])))))"

subsection \<open>Sums of scattered values\<close>

text \<open>The sum of the values that a list of \<open>(position, value)\<close> entries holds for the
  position \<open>p\<close>: what an accumulating scatter adds there.\<close>

definition picked :: "('i \<times> real) list \<Rightarrow> 'i \<Rightarrow> real" where
  "picked kvs p = sum_list (map snd (filter (\<lambda>kv. fst kv = p) kvs))"

subsection \<open>Test configurations\<close>

text \<open>A parameter set and empty index structures, varied by record update in the
  evaluations below.\<close>

definition test_param :: param where
  "test_param = \<lparr>mass = 1, n_dim = 2, n_bead = 1, vdw_sigma = 1, vdw_epsilon = 1, rc = 2,
                  bond_r0 = 1, bond_k0 = 1, angle_k0 = 1, sigma = 0, gamma = 0,
                  lambda_p = 0, P_0 = 0\<rparr>"

definition no_indices :: indices where
  "no_indices = \<lparr>pos_indices = [], bond_indices = [], frc_indices = [], angle_indices = [],
                  angle_bond_indices = [], vdw_coeff = [], virial_indicies = []\<rparr>"

subsection \<open>Partition of the index structures\<close>

text \<open>
  Modelled from the spec: the partition of the index lists into the slices of the
  processes, which is done once at setup, outside the sources. The definitions of this
  subsection state how the structures of two processes combine into the structures of
  one process that evaluates both: the rows of \<open>pos_indices\<close> and \<open>vdw_coeff\<close>
  of the second follow those of the first, the row indices of its \<open>bond_indices\<close> and
  \<open>virial_indicies\<close>, which count the rows of its own pair arrays, move behind the
  rows of the first, and the bead indices of \<open>frc_indices\<close>, \<open>angle_indices\<close> and
  \<open>angle_bond_indices\<close> are appended as they are.
\<close>

definition shift_rows :: "nat \<Rightarrow> (int \<times> int) list \<Rightarrow> (int \<times> int) list" where
  "shift_rows m is = map (\<lambda>ij. (fst ij + int m, snd ij)) is"

definition join :: "indices \<Rightarrow> indices \<Rightarrow> indices" where
  "join a b =
     \<lparr>pos_indices = pos_indices a @ pos_indices b,
      bond_indices = bond_indices a @ shift_rows (length (pos_indices a)) (bond_indices b),
      frc_indices = frc_indices a @ frc_indices b,
      angle_indices = angle_indices a @ angle_indices b,
      angle_bond_indices = angle_bond_indices a @ angle_bond_indices b,
      vdw_coeff = vdw_coeff a @ vdw_coeff b,
      virial_indicies = virial_indicies a @ shift_rows (length (pos_indices a)) (virial_indicies b)\<rparr>"

text \<open>The index structures of a single process over the slices of all processes.\<close>

fun merge :: "indices list \<Rightarrow> indices" where
  "merge [] = no_indices"
| "merge (s # ss) = join s (merge ss)"

text \<open>A bead index that numpy accepts for \<open>n\<close> beads, and the bead it selects.\<close>

definition valid_index :: "nat \<Rightarrow> int \<Rightarrow> bool" where
  "valid_index n i = (- int n \<le> i \<and> i < int n)"

definition bead_of :: "nat \<Rightarrow> int \<Rightarrow> nat" where
  "bead_of n i = nat (if i < 0 then i + int n else i)"

text \<open>
  A slice whose evaluation a sum can stand for: its row indices count from the first row
  (no negative row index), \<open>vdw_coeff\<close> has a row for each entry of \<open>pos_indices\<close>,
  there is one entry of \<open>frc_indices\<close> for each bond and one pair of bond vectors for
  each angle triplet (nothing is broadcast), a slice with angle triplets has a bond, and
  the bead indices of the angle arrays are valid.
\<close>

definition wf_slice :: "nat \<Rightarrow> indices \<Rightarrow> bool" where
  "wf_slice n s =
     (list_all (\<lambda>ij. 0 \<le> fst ij) (bond_indices s)
      \<and> list_all (\<lambda>ij. 0 \<le> fst ij) (virial_indicies s)
      \<and> length (vdw_coeff s) = length (pos_indices s)
      \<and> length (frc_indices s) = length (bond_indices s)
      \<and> length (angle_bond_indices s) = 2 * length (angle_indices s)
      \<and> (length (bond_indices s) = 0 \<and> length (angle_indices s) = 0
           \<or> 0 < length (bond_indices s))
      \<and> list_all (\<lambda>t. valid_index n (fst t) \<and> valid_index n (fst (snd t))
                         \<and> valid_index n (snd (snd t))) (angle_indices s)
      \<and> list_all (\<lambda>ab. valid_index n (fst ab) \<and> valid_index n (snd ab)) (angle_bond_indices s))"

text \<open>
  No position is written twice by one scattered addition: the entries of
  \<open>frc_indices\<close> select different positions of \<open>temp_frc\<close>, and each column of
  \<open>angle_indices\<close> selects different beads.
\<close>

definition scatter_distinct :: "nat \<Rightarrow> indices \<Rightarrow> bool" where
  "scatter_distinct n s =
     (distinct (map (\<lambda>ij. (bead_of n (fst ij), bead_of n (snd ij))) (frc_indices s))
      \<and> distinct (map (\<lambda>t. bead_of n (fst t)) (angle_indices s))
      \<and> distinct (map (\<lambda>t. bead_of n (fst (snd t))) (angle_indices s))
      \<and> distinct (map (\<lambda>t. bead_of n (snd (snd t))) (angle_indices s)))"

text \<open>The element-wise sum of two states of the accumulated variables.\<close>

definition acc_add :: "accum \<Rightarrow> accum \<Rightarrow> accum" where
  "acc_add a b =
     \<lparr>pot_energy = pot_energy a + pot_energy b,
      f_beads_x = map2 (+) (f_beads_x a) (f_beads_x b),
      f_beads_y = map2 (+) (f_beads_y a) (f_beads_y b),
      virial_tensor = mat2_add (virial_tensor a) (virial_tensor b)\<rparr>"

section \<open>Properties\<close>

subsection \<open>cos\_sin\_theta\<close>

lemma pairs_of_length: "length (pairs_of xs) = length xs div 2"
  by (induction xs rule: pairs_of.induct) auto







subsection \<open>Index arrays\<close>

lemma sequence_Inr:
  "sequence xs = Inr ys \<Longrightarrow> length ys = length xs \<and> (\<forall>i<length xs. xs ! i = Inr (ys ! i))"
proof (induction xs arbitrary: ys)
  case Nil
  then show ?case by simp
next
  case (Cons x xs)
  then obtain v vs where x: "x = Inr v" and s: "sequence xs = Inr vs" and y: "ys = v # vs"
    by (auto split: sum.splits)
  from Cons.IH [OF s] show ?case
    by (auto simp: x y nth_Cons split: nat.splits)
qed

lemma norm_index_bound: "norm_index n i = Inr k \<Longrightarrow> k < n"
  by (auto simp: norm_index_def split: if_splits)

lemma norm_indices_Inr:
  assumes "norm_indices n is = Inr ks"
  shows "length ks = length is" and "\<And>k. k \<in> set ks \<Longrightarrow> k < n"
proof -
  from sequence_Inr [OF assms [unfolded norm_indices_def]]
  have l: "length ks = length is" and a: "\<forall>i<length is. norm_index n (is ! i) = Inr (ks ! i)"
    by simp_all
  show "length ks = length is" by (rule l)
  fix k assume "k \<in> set ks"
  then obtain i where "i < length ks" "ks ! i = k" by (auto simp: in_set_conv_nth)
  with l a show "k < n" by (auto dest: norm_index_bound)
qed

subsection \<open>The image correction of the angle bond vectors\<close>

lemma trunc_int_minus: "trunc_int (- x) = - trunc_int x"
  by (cases "x = 0") (auto simp: trunc_int_def)

lemma angle_image_minus: "angle_image l (- d) = - angle_image l d"
proof -
  have "2 * (- d) / l = - (2 * d / l)" by simp
  then show ?thesis unfolding angle_image_def by (simp add: trunc_int_minus)
qed

lemma angle_image_range_pos:
  assumes l: "0 < l" and d0: "0 \<le> d" and d: "d < l"
  shows "- l / 2 \<le> angle_image l d \<and> angle_image l d \<le> l / 2"
proof -
  have nn: "0 \<le> 2 * d / l" using l d0 by simp
  have lt2: "2 * d / l < 2" using l d by (simp add: pos_divide_less_eq)
  show ?thesis
  proof (cases "2 * d / l < 1")
    case True
    with nn have "\<lfloor>2 * d / l\<rfloor> = 0" by linarith
    with nn have "angle_image l d = d" by (simp add: angle_image_def trunc_int_def)
    moreover from True l have "d < l / 2" by (simp add: pos_divide_less_eq)
    ultimately show ?thesis using d0 l by simp
  next
    case False
    with lt2 have "\<lfloor>2 * d / l\<rfloor> = 1" by linarith
    with nn have "angle_image l d = d - l" by (simp add: angle_image_def trunc_int_def)
    moreover from False l have "l / 2 \<le> d" by (simp add: pos_divide_less_eq not_less pos_le_divide_eq)
    ultimately show ?thesis using d l by simp
  qed
qed

lemma angle_image_range:
  assumes l: "0 < l" and d: "\<bar>d\<bar> < l"
  shows "- l / 2 \<le> angle_image l d \<and> angle_image l d \<le> l / 2"
proof (cases "0 \<le> d")
  case True
  with angle_image_range_pos [OF l] d show ?thesis by simp
next
  case False
  then have "0 \<le> - d" "- d < l" using d by simp_all
  from angle_image_range_pos [OF l this] show ?thesis
    by (simp add: angle_image_minus)
qed

text \<open>
  C7, as stated: the correction of line 165 is the general minimum-image formula, and the
  corrected component lies in \<open>[-cell_dim/2, cell_dim/2]\<close> also for a displacement
  longer than the box. A displacement of 12 in a box of length 10 is corrected to
  \<open>12 - 10 * int(2.4) = -8\<close>.
\<close>

theorem angle_image_counterexample:
  "angle_dist_of test_param [(12, 0), (0, 0)] (10, 10) [(0, 1)] = Inr [(- 8, 0)]
   \<and> \<not> (- fst (10 :: real, 10 :: real) / 2 \<le> fst (- 8 :: real, 0 :: real))"
  by (simp add: angle_dist_of_def test_param_def norm_indices_def norm_index_def
        angle_image_def trunc_int_def)

text \<open>
  C7, amended: when every component of the displacement between two beads is smaller in
  magnitude than the box length of its axis (as it is between wrapped positions), every
  component of the corrected angle bond vectors lies in \<open>[-cell_dim/2, cell_dim/2]\<close>.
\<close>

theorem angle_image_half_box:
  assumes res: "angle_dist_of p pos cell_dim abi = Inr vector"
    and nd: "n_dim p = 2"
    and box: "0 < fst cell_dim" "0 < snd cell_dim"
    and near: "\<forall>a\<in>set pos. \<forall>b\<in>set pos.
                 \<bar>fst a - fst b\<bar> < fst cell_dim \<and> \<bar>snd a - snd b\<bar> < snd cell_dim"
    and v: "v \<in> set vector"
  shows "- fst cell_dim / 2 \<le> fst v \<and> fst v \<le> fst cell_dim / 2
       \<and> - snd cell_dim / 2 \<le> snd v \<and> snd v \<le> snd cell_dim / 2"
proof -
  from res obtain ia ib where ia: "norm_indices (length pos) (map fst abi) = Inr ia"
    and ib: "norm_indices (length pos) (map snd abi) = Inr ib"
    and vec: "vector = map2 (\<lambda>a b. (angle_image (fst cell_dim) (fst (pos ! a) - fst (pos ! b)),
                                     angle_image (snd cell_dim) (snd (pos ! a) - snd (pos ! b)))) ia ib"
    using nd by (auto simp: angle_dist_of_def Let_def split: sum.splits if_splits)
  from v vec obtain a b where ab: "(a, b) \<in> set (zip ia ib)"
    and ve: "v = (angle_image (fst cell_dim) (fst (pos ! a) - fst (pos ! b)),
                  angle_image (snd cell_dim) (snd (pos ! a) - snd (pos ! b)))"
    by auto
  from ab have "a \<in> set ia" "b \<in> set ib" by (auto dest: set_zip_leftD set_zip_rightD)
  with norm_indices_Inr(2) [OF ia] norm_indices_Inr(2) [OF ib]
  have "pos ! a \<in> set pos" "pos ! b \<in> set pos" by simp_all
  with near have "\<bar>fst (pos ! a) - fst (pos ! b)\<bar> < fst cell_dim"
    "\<bar>snd (pos ! a) - snd (pos ! b)\<bar> < snd cell_dim" by blast+
  with angle_image_range box show ?thesis by (simp add: ve)
qed

theorem angle_image_half_box_witness:
  "angle_dist_of test_param [(1, 1), (9, 8)] (10, 10) [(0, 1)] = Inr [(2, 3)]
   \<and> - fst (10 :: real, 10 :: real) / 2 \<le> fst (2 :: real, 3 :: real)
   \<and> fst (2 :: real, 3 :: real) \<le> fst (10 :: real, 10 :: real) / 2
   \<and> - snd (10 :: real, 10 :: real) / 2 \<le> snd (2 :: real, 3 :: real)
   \<and> snd (2 :: real, 3 :: real) \<le> snd (10 :: real, 10 :: real) / 2"
proof -
  have r: "angle_dist_of test_param [(1, 1), (9, 8)] (10, 10) [(0, 1)] = Inr [(2, 3)]"
    by (simp add: angle_dist_of_def test_param_def norm_indices_def norm_index_def
        angle_image_def trunc_int_def)
  have "- fst (10 :: real, 10 :: real) / 2 \<le> fst (2 :: real, 3 :: real)
   \<and> fst (2 :: real, 3 :: real) \<le> fst (10 :: real, 10 :: real) / 2
   \<and> - snd (10 :: real, 10 :: real) / 2 \<le> snd (2 :: real, 3 :: real)
   \<and> snd (2 :: real, 3 :: real) \<le> snd (10 :: real, 10 :: real) / 2"
    by (rule angle_image_half_box [OF r]) (simp_all add: test_param_def)
  with r show ?thesis by blast
qed

subsection \<open>The periodic wrap\<close>

lemma trunc_int_floor: "0 \<le> x \<Longrightarrow> trunc_int x = \<lfloor>x\<rfloor>"
  by (simp add: trunc_int_def)

lemma wrap_shift_range:
  assumes l: "0 < l" and x: "- l \<le> x"
  shows "0 \<le> x + wrap_shift l x \<and> x + wrap_shift l x < l"
proof -
  define k where "k = \<lfloor>(x + l) / l\<rfloor>"
  have nn: "0 \<le> (x + l) / l" using l x by simp
  have t: "trunc_int ((x + l) / l) = k" using nn by (simp add: trunc_int_def k_def)
  have lo: "real_of_int k \<le> (x + l) / l" and hi: "(x + l) / l < real_of_int k + 1"
    unfolding k_def by linarith+
  from lo l have lo': "real_of_int k * l \<le> x + l" by (simp add: pos_le_divide_eq)
  from hi l have hi': "x + l < (real_of_int k + 1) * l" by (simp add: pos_divide_less_eq)
  have e: "x + wrap_shift l x = x + l - real_of_int k * l"
    unfolding wrap_shift_def t by (simp add: algebra_simps)
  show ?thesis unfolding e using lo' hi' by (simp add: algebra_simps)
qed

lemma map2_replicate: "map2 f xs (replicate (length xs) c) = map (\<lambda>x. f x c) xs"
  by (induction xs) auto

lemma map2_map_same: "map2 f xs (map g xs) = map (\<lambda>x. f x (g x)) xs"
  by (induction xs) auto

lemma periodic_wrap_Inr:
  assumes "periodic_wrap p cell_dim pos = Inr pos2"
  shows "pos2 = map (\<lambda>x. (fst x + wrap_shift (fst cell_dim) (fst x),
                            snd x + wrap_shift (snd cell_dim) (snd x))) pos"
proof (cases "length pos = nat (n_bead p)")
  case True
  then have "replicate (nat (n_bead p)) cell_dim = replicate (length pos) cell_dim" by simp
  with assms show ?thesis
    by (simp add: periodic_wrap_def bc2_def iadd_def map2_replicate map2_map_same)
next
  case False
  show ?thesis
  proof (cases "length pos = 1")
    case True
    with False assms show ?thesis
      by (auto simp: periodic_wrap_def bc2_def iadd_def split: if_splits)
  next
    case ne: False
    with False assms have one: "nat (n_bead p) = 1"
      by (auto simp: periodic_wrap_def bc2_def Let_def split: if_splits)
    with False ne assms show ?thesis
      by (simp add: periodic_wrap_def bc2_def iadd_def map2_map_same)
  qed
qed

lemma periodic_wrap_in_box:
  assumes w: "periodic_wrap p cell_dim pos = Inr pos2"
    and box: "0 < fst cell_dim" "0 < snd cell_dim"
    and low: "\<forall>x\<in>set pos. - fst cell_dim \<le> fst x \<and> - snd cell_dim \<le> snd x"
    and x: "x \<in> set pos2"
  shows "0 \<le> fst x \<and> fst x < fst cell_dim \<and> 0 \<le> snd x \<and> snd x < snd cell_dim"
proof -
  from x periodic_wrap_Inr [OF w] obtain y where y: "y \<in> set pos"
    and e: "x = (fst y + wrap_shift (fst cell_dim) (fst y), snd y + wrap_shift (snd cell_dim) (snd y))"
    by auto
  from y low have "- fst cell_dim \<le> fst y" "- snd cell_dim \<le> snd y" by auto
  with wrap_shift_range box show ?thesis by (simp add: e)
qed

text \<open>The definitions a run of the integrator on a configuration without bonds unfolds.\<close>

lemmas eval_defs = velocity_verlet_alg_def draw_beta_def kinematic_update_def test_param_def
      no_indices_def periodic_wrap_def bc2_def iadd_def wrap_shift_def trunc_int_def
      calc_energy_forces_def get_distances_mpi_def get_distances_def min_image_def
      norm_indices_def nonbond_block_def nonbond_entries_def norm_indices2_def acc_zero_def
      virial_sum_def col_sum_def sq_len_def Let_def round_def

text \<open>
  C6: after each integrator step every component of every returned position lies in
  \<open>[0, cell_dim)\<close>, for any positions the kinematic update produces. Line 323 adds
  \<open>cell * (1 - int((pos + cell) / cell))\<close>. For a component at or above \<open>-cell\<close> the
  quotient is not negative, \<open>int\<close> is the floor, and the line brings the component
  back from any number of box lengths above the box (35 to 5 in a box of length 10) and
  from one box length below it. For a component below \<open>-cell\<close> the quotient is
  negative and \<open>int\<close> truncates towards zero, one more than the floor: the shift is one
  box length short. A bead at the origin with velocity \<open>-15\<close> along x and a time step
  of 1 in a box of length 10 is moved to \<open>-15\<close>; line 323 adds
  \<open>10 * (1 - int(-0.5)) = 10\<close> and the step returns \<open>-5\<close>. All the numbers of this
  run are exact in double precision.
\<close>

theorem wrap_leaves_box:
  "velocity_verlet_alg ut_spec (\<lambda>i j. 0) [(0, 0)] [(- 15, 0)] [(0, 0)] ((0, 0), (0, 0))
       test_param no_indices 1 1 (10, 10) False
     = Inr ([(- 5, 0)], [(- 15, 0)], [(0, 0)], (10, 10), 0, ((0, 0), (0, 0)), [[0]])
   \<and> \<not> (0 \<le> fst (- 5 :: real, 0 :: real))"
  by (simp add: eval_defs)

text \<open>
  Over the reals, where the quotient of line 323 is not rounded: when every component of
  the positions produced by the kinematic update is at least \<open>-cell_dim\<close> for its
  axis, and the box lengths are positive, every component of every position returned by
  \<open>velocity_verlet_alg\<close> lies in \<open>[0, cell_dim)\<close>. (In double precision the sum
  \<open>pos + cell\<close> and the quotient are rounded, and a component within a rounding error
  of a face of the box can be returned just outside it; that is outside this model.)
\<close>

lemma wrap_in_box:
  assumes beta: "draw_beta noise p = Inr beta"
    and kin: "kinematic_update ut beta pos vel frc vt p dt cell_dim NPT = Inr (pos1, vel1, cell1)"
    and box: "0 < fst cell1" "0 < snd cell1"
    and low: "\<forall>x\<in>set pos1. - fst cell1 \<le> fst x \<and> - snd cell1 \<le> snd x"
    and res: "velocity_verlet_alg ut noise pos vel frc vt p ix dt sqrt_dt cell_dim NPT
                = Inr (pos', vel', frc', cell', pot', vt', r2)"
  shows "\<forall>x\<in>set pos'. 0 \<le> fst x \<and> fst x < fst cell' \<and> 0 \<le> snd x \<and> snd x < snd cell'"
proof -
  from res beta kin have w: "periodic_wrap p cell1 pos1 = Inr pos'" and c: "cell' = cell1"
    by (auto simp: velocity_verlet_alg_def Let_def split: sum.splits)
  from periodic_wrap_in_box [OF w box low] show ?thesis unfolding c by blast
qed

lemma wrap_in_box_example:
  "velocity_verlet_alg ut_spec (\<lambda>i j. 0) [(0, 0)] [(- 5, 12)] [(0, 0)] ((0, 0), (0, 0))
       test_param no_indices 1 1 (10, 10) False
     = Inr ([(5, 2)], [(- 5, 12)], [(0, 0)], (10, 10), 0, ((0, 0), (0, 0)), [[0]])
   \<and> 0 \<le> fst (5 :: real, 2 :: real) \<and> fst (5 :: real, 2 :: real) < fst (10 :: real, 10 :: real)
   \<and> 0 \<le> snd (5 :: real, 2 :: real) \<and> snd (5 :: real, 2 :: real) < snd (10 :: real, 10 :: real)"
proof -
  have b: "draw_beta (\<lambda>i j. 0) test_param = Inr [(0, 0)]"
    by (simp add: draw_beta_def test_param_def)
  have k: "kinematic_update ut_spec [(0, 0)] [(0, 0)] [(- 5, 12)] [(0, 0)] ((0, 0), (0, 0))
             test_param 1 (10, 10) False = Inr ([(- 5, 12)], [(- 5, 12)], (10, 10))"
    by (simp add: kinematic_update_def test_param_def bc2_def iadd_def)
  have r: "velocity_verlet_alg ut_spec (\<lambda>i j. 0) [(0, 0)] [(- 5, 12)] [(0, 0)] ((0, 0), (0, 0))
       test_param no_indices 1 1 (10, 10) False
     = Inr ([(5, 2)], [(- 5, 12)], [(0, 0)], (10, 10), 0, ((0, 0), (0, 0)), [[0]])"
    by (simp add: eval_defs)
  have "\<forall>x\<in>set [(5 :: real, 2 :: real)].
         0 \<le> fst x \<and> fst x < fst (10 :: real, 10 :: real)
         \<and> 0 \<le> snd x \<and> snd x < snd (10 :: real, 10 :: real)"
    by (rule wrap_in_box [OF b k _ _ _ r]) simp_all
  then have "0 \<le> fst (5 :: real, 2 :: real) \<and> fst (5 :: real, 2 :: real) < fst (10 :: real, 10 :: real)
   \<and> 0 \<le> snd (5 :: real, 2 :: real) \<and> snd (5 :: real, 2 :: real) < snd (10 :: real, 10 :: real)"
    by (simp del: fst_conv snd_conv)
  with r show ?thesis by blast
qed

text \<open>The distributed variant wraps with the same two lines.\<close>

lemma wrap_in_box_mpi:
  assumes beta: "draw_beta noise p = Inr beta"
    and kin: "kinematic_update ut beta pos vel frc vt p dt cell_dim NPT = Inr (pos1, vel1, cell1)"
    and box: "0 < fst cell1" "0 < snd cell1"
    and low: "\<forall>x\<in>set pos1. - fst cell1 \<le> fst x \<and> - snd cell1 \<le> snd x"
    and res: "velocity_verlet_alg_mpi ut noise pos vel frc vt p slices dt sqrt_dt cell_dim NPT
                = Inr rs"
    and r: "(pos', vel', frc', cell', pot', vt') \<in> set rs"
  shows "\<forall>x\<in>set pos'. 0 \<le> fst x \<and> fst x < fst cell' \<and> 0 \<le> snd x \<and> snd x < snd cell'"
proof -
  from res beta kin r have w: "periodic_wrap p cell1 pos1 = Inr pos'" and c: "cell' = cell1"
    by (auto simp: velocity_verlet_alg_mpi_def Let_def split: sum.splits)
  from periodic_wrap_in_box [OF w box low] show ?thesis unfolding c by blast
qed

subsection \<open>The non-bonded block\<close>

text \<open>The definitions an evaluation of \<open>calc_energy_forces\<close> without bonds unfolds.\<close>

lemmas cef_defs = calc_energy_forces_def get_distances_mpi_def min_image_def
      norm_indices_def norm_index_def nonbond_block_def nonbond_entries_def nonbond_entry_def
      norm_indices2_def norm_index2_def acc_zero_def coeff_at_def component_def
      virial_sum_def col_sum_def sq_len_def Let_def round_def ut_spec_def test_param_def
      no_indices_def power_divide




text \<open>Under the cutoff check modelled from the spec the pair at \<open>rc\<close> is excluded.\<close>

lemma cutoff_pair_excluded:
  assumes "check_cutoff ut = check_cutoff ut_spec" and "sq_len d = (rc p)\<^sup>2"
  shows "nonbond_entry ut p coeff m q d = Inr (0, (0, 0))"
  using assms by (simp add: nonbond_entry_def ut_spec_def Let_def)

text \<open>
  C4: every pair within the cutoff whose \<open>vdw_coeff\<close> entry is zero adds exactly zero
  energy and zero force. The source subtracts \<open>cut_pot\<close> and \<open>cut_frc\<close> after the
  multiplication by \<open>vdw_coeff\<close>, so such a pair adds \<open>- cut_pot\<close> and
  \<open>- cut_frc\<close>: two beads at distance 1 with \<open>rc = 2\<close> and all coefficients zero
  get the energy \<open>63/1024\<close> and the forces \<open>\<mp> 93/256\<close> along x.
\<close>

theorem zero_coeff_pair_contributes:
  "calc_energy_forces ut_spec [(0, 0), (1, 0)] (10, 10)
      (no_indices\<lparr>pos_indices := [0, 1], vdw_coeff := [[0, 0], [0, 0]]\<rparr>) test_param
     = Inr (63 / 1024, [(- 93 / 256, 0), (93 / 256, 0)], ((0, 0), (0, 0)))
   \<and> (63 / 1024 :: real) \<noteq> 0 \<and> (93 / 256 :: real) \<noteq> 0"
  by (simp add: cef_defs)

text \<open>
  C5: the virial tensor returned by \<open>calc_energy_forces\<close> is symmetric. Line 220
  multiplies \<open>temp_xy[i]\<close>, which holds the displacement component \<open>i\<close> already,
  by \<open>pair_dist[i]\<close> once more: for the pair with displacement \<open>(-1, 1)\<close> the entry
  \<open>(0, 1)\<close> is \<open>483/512\<close> and the entry \<open>(1, 0)\<close> is \<open>-483/512\<close>.
\<close>

theorem virial_not_symmetric:
  "calc_energy_forces ut_spec [(1, 1), (2, 0)] (10, 10)
      (no_indices\<lparr>pos_indices := [0, 1], vdw_coeff := [[1, 1], [1, 1]],
                   virial_indicies := [(0, 1)]\<rparr>) test_param
     = Inr (- 385 / 1024, [(483 / 512, - 483 / 512), (- 483 / 512, 483 / 512)],
            ((- 483 / 512, 483 / 512), (- 483 / 512, 483 / 512)))
   \<and> (483 / 512 :: real) \<noteq> - 483 / 512"
  by (simp add: cef_defs)

subsection \<open>Missing topology\<close>

lemma angle_block_empty: "angle_block p pos cell_dim [] [] acc = Inr acc"
  by (simp add: angle_block_def angle_dist_of_def norm_indices_def cos_sin_theta_def
      frc_angles_def add_x_def add_y_def iadd_at_def broadcast_to_def Let_def)

text \<open>
  C9: with no bonds, \<open>calc_energy_forces\<close> runs neither the bonded nor the angular
  block, whatever \<open>angle_indices\<close>, \<open>angle_bond_indices\<close> and \<open>frc_indices\<close>
  hold: the result is that of the non-bonded block on zero energy and zero forces. With
  bonds and no angle triplets, the angular block returns the energy and the forces it was
  given, and raises nothing.
\<close>

theorem no_bonds_no_angles:
  "(bond_indices ix = [] \<longrightarrow>
      calc_energy_forces ut pos cell_dim ix p =
        (case get_distances_mpi pos (pos_indices ix) cell_dim of
           Inl e \<Rightarrow> Inl e
         | Inr pair_dist \<Rightarrow>
             (case nonbond_block ut p (length pos) pair_dist (vdw_coeff ix) (virial_indicies ix)
                     (acc_zero (length pos)) of
                Inl e \<Rightarrow> Inl e
              | Inr a \<Rightarrow> Inr (pot_energy a, zip (f_beads_x a) (f_beads_y a), virial_tensor a))))
   \<and> angle_block p pos cell_dim [] [] acc = Inr acc"
  by (auto simp: calc_energy_forces_def Let_def angle_block_empty split: sum.splits)

theorem no_bonds_no_angles_witness:
  "bond_indices (no_indices\<lparr>pos_indices := [0, 1], angle_indices := [(0, 1, 0)],
                             angle_bond_indices := [(0, 1), (1, 0)],
                             vdw_coeff := [[1, 1], [1, 1]]\<rparr>) = []
   \<and> calc_energy_forces ut_spec [(1, 1), (2, 0)] (10, 10)
        (no_indices\<lparr>pos_indices := [0, 1], angle_indices := [(0, 1, 0)],
                     angle_bond_indices := [(0, 1), (1, 0)],
                     vdw_coeff := [[1, 1], [1, 1]]\<rparr>) test_param
       = Inr (- 385 / 1024, [(483 / 512, - 483 / 512), (- 483 / 512, 483 / 512)],
              ((0, 0), (0, 0)))
   \<and> angle_block test_param [(1, 1), (2, 0)] (10, 10) [] [] (acc_zero 2) = Inr (acc_zero 2)"
  using no_bonds_no_angles [of "no_indices\<lparr>pos_indices := [0, 1],
      angle_indices := [(0, 1, 0)], angle_bond_indices := [(0, 1), (1, 0)],
      vdw_coeff := [[1, 1], [1, 1]]\<rparr>" ut_spec "[(1, 1), (2, 0)]" "(10, 10)" test_param
      "acc_zero 2"]
  by (simp add: cef_defs)

subsection \<open>The reduction of the distributed step\<close>

lemma sequence_map_Inr: "sequence (map Inr xs) = Inr xs"
  by (induction xs) auto

lemmas mpi_defs = velocity_verlet_alg_mpi_def sum_frc_def sum_virial_def vec_add_def mat2_add_def

text \<open>
  C2, as stated: after the reduction every rank returns the same potential energy, force
  array and virial tensor. The energies are gathered to rank 0 only
  (\<open>comm.gather(pot_energy, root=0)\<close>): with two processes rank 0 returns the summed
  energy and rank 1 returns \<open>None\<close>.
\<close>

theorem mpi_energy_counterexample:
  "velocity_verlet_alg_mpi ut_spec (\<lambda>i j. 0) [(0, 0)] [(0, 0)] [(0, 0)] ((0, 0), (0, 0))
       test_param [no_indices, no_indices] 1 1 (10, 10) False
     = Inr [([(0, 0)], [(0, 0)], [(0, 0)], (10, 10), Some 0, ((0, 0), (0, 0))),
            ([(0, 0)], [(0, 0)], [(0, 0)], (10, 10), None, ((0, 0), (0, 0)))]
   \<and> Some (0 :: real) \<noteq> None"
  by (simp add: mpi_defs draw_beta_def kinematic_update_def test_param_def
      no_indices_def periodic_wrap_def bc2_def iadd_def wrap_shift_def trunc_int_def
      calc_energy_forces_def get_distances_mpi_def
      norm_indices_def nonbond_block_def nonbond_entries_def norm_indices2_def acc_zero_def
      virial_sum_def col_sum_def Let_def upt_rec)

text \<open>
  C2, amended: when the step runs through on every rank, every rank returns the same
  positions, velocities and box, the element-wise sum of the partial force arrays and the
  element-wise sum of the partial virial tensors; the sum of the partial potential
  energies is returned on rank 0 only, and every other rank returns no energy.
\<close>

theorem mpi_reduction:
  assumes beta: "draw_beta noise p = Inr beta"
    and kin: "kinematic_update ut beta pos vel frc vt p dt cell_dim NPT = Inr (pos1, vel1, cell1)"
    and wrap: "periodic_wrap p cell1 pos1 = Inr pos2"
    and parts: "map (\<lambda>ix. calc_energy_forces ut pos2 cell1 ix p) slices = map Inr parts"
    and rank: "rank < length slices"
  shows "\<exists>rs. velocity_verlet_alg_mpi ut noise pos vel frc vt p slices dt sqrt_dt cell_dim NPT = Inr rs
           \<and> length rs = length slices
           \<and> rs ! rank = (pos2, vel1, sum_frc (length pos2) (map (\<lambda>r. fst (snd r)) parts), cell1,
                           (if rank = 0 then Some (sum_list (map fst parts)) else None),
                           sum_virial (map (\<lambda>r. snd (snd r)) parts))"
  using rank
  by (simp add: velocity_verlet_alg_mpi_def beta kin wrap parts sequence_map_Inr Let_def)

theorem mpi_reduction_witness:
  "velocity_verlet_alg_mpi ut_spec (\<lambda>i j. 0) [(1, 1), (2, 0)] [(0, 0), (0, 0)] [(0, 0), (0, 0)]
       ((0, 0), (0, 0)) (test_param\<lparr>n_bead := 2\<rparr>)
       [no_indices\<lparr>pos_indices := [0], vdw_coeff := [[1, 1]]\<rparr>,
        no_indices\<lparr>pos_indices := [1], vdw_coeff := [[1, 1]]\<rparr>] 1 1 (10, 10) False
     = Inr [([(1, 1), (2, 0)], [(0, 0), (0, 0)], [(483 / 512, - 483 / 512), (- 483 / 512, 483 / 512)],
             (10, 10), Some (- 385 / 1024), ((0, 0), (0, 0))),
            ([(1, 1), (2, 0)], [(0, 0), (0, 0)], [(483 / 512, - 483 / 512), (- 483 / 512, 483 / 512)],
             (10, 10), None, ((0, 0), (0, 0)))]"
proof -
  let ?p = "test_param\<lparr>n_bead := 2\<rparr>"
  let ?s0 = "no_indices\<lparr>pos_indices := [0], vdw_coeff := [[1, 1]]\<rparr>"
  let ?s1 = "no_indices\<lparr>pos_indices := [1], vdw_coeff := [[1, 1]]\<rparr>"
  have b: "draw_beta (\<lambda>i j. 0) ?p = Inr [(0, 0), (0, 0)]"
    by (simp add: draw_beta_def test_param_def upt_rec)
  have k: "kinematic_update ut_spec [(0, 0), (0, 0)] [(1, 1), (2, 0)] [(0, 0), (0, 0)]
             [(0, 0), (0, 0)] ((0, 0), (0, 0)) ?p 1 (10, 10) False
           = Inr ([(1, 1), (2, 0)], [(0, 0), (0, 0)], (10, 10))"
    by (simp add: kinematic_update_def test_param_def bc2_def iadd_def)
  have w: "periodic_wrap ?p (10, 10) [(1, 1), (2, 0)] = Inr [(1, 1), (2, 0)]"
    by (simp add: periodic_wrap_def test_param_def bc2_def iadd_def wrap_shift_def trunc_int_def
        numeral_2_eq_2)
  have c: "map (\<lambda>ix. calc_energy_forces ut_spec [(1, 1), (2, 0)] (10, 10) ix ?p) [?s0, ?s1]
           = map Inr [(- 385 / 2048, [(0, 0), (- 483 / 512, 483 / 512)], ((0, 0), (0, 0))),
                      (- 385 / 2048, [(483 / 512, - 483 / 512), (0, 0)], ((0, 0), (0, 0)))]"
    by (simp add: calc_energy_forces_def get_distances_mpi_def min_image_def
      norm_indices_def norm_index_def nonbond_block_def nonbond_entries_def nonbond_entry_def
      norm_indices2_def acc_zero_def coeff_at_def
      virial_sum_def col_sum_def sq_len_def Let_def round_def ut_spec_def test_param_def
      no_indices_def power_divide upt_rec)
  from mpi_reduction [OF b k w c, of 0 1] mpi_reduction [OF b k w c, of 1 1]
  show ?thesis
    by (auto simp: sum_frc_def sum_virial_def vec_add_def mat2_add_def length_Suc_conv)
qed

subsection \<open>Scattered additions\<close>

lemma picked_Nil [simp]: "picked [] p = 0"
  by (simp add: picked_def)

lemma picked_Cons [simp]: "picked (kv # kvs) p = (if fst kv = p then snd kv else 0) + picked kvs p"
  by (simp add: picked_def)

lemma picked_append [simp]: "picked (xs @ ys) p = picked xs p + picked ys p"
  by (simp add: picked_def)

lemma picked_absent: "p \<notin> fst ` set kvs \<Longrightarrow> picked kvs p = 0"
  by (induction kvs) auto

lemma map_of_distinct_picked:
  "distinct (map fst kvs) \<Longrightarrow> (case map_of kvs p of None \<Rightarrow> 0 | Some v \<Rightarrow> v) = picked kvs p"
proof (induction kvs)
  case Nil
  then show ?case by simp
next
  case (Cons kv kvs)
  obtain k v where kv: "kv = (k, v)" by (cases kv)
  show ?case
  proof (cases "k = p")
    case True
    with Cons.prems kv have "p \<notin> fst ` set kvs" by auto
    then have "picked kvs p = 0" by (rule picked_absent)
    with True kv show ?thesis by simp
  next
    case False
    with Cons kv show ?thesis by simp
  qed
qed

lemma scatter_zeros_distinct:
  assumes "distinct (map fst kvs)"
  shows "scatter_zeros kvs p = picked kvs p"
proof -
  from assms have d: "distinct (map fst (rev kvs))" by (simp add: rev_map [symmetric])
  have "map_of (rev kvs) = map_of kvs"
    using d assms by (subst map_of_inject_set) simp_all
  with map_of_distinct_picked [OF assms, of p] show ?thesis
    by (simp add: scatter_zeros_def)
qed

lemma sum_list_if_eq:
  "sum_list (map (\<lambda>r. if k = r then v else 0) [0..<n]) = (if k < n then v else (0::real))"
  by (induction n) auto

lemma sum_list_picked:
  "\<forall>kv\<in>set kvs. fst kv < n \<Longrightarrow> sum_list (map (picked kvs) [0..<n]) = sum_list (map snd kvs)"
proof (induction kvs)
  case Nil
  then show ?case by simp
next
  case (Cons kv kvs)
  have "picked (kv # kvs) = (\<lambda>r. (if fst kv = r then snd kv else 0) + picked kvs r)"
    by (rule ext) simp
  then have "sum_list (map (picked (kv # kvs)) [0..<n])
      = sum_list (map (\<lambda>r. if fst kv = r then snd kv else 0) [0..<n])
        + sum_list (map (picked kvs) [0..<n])"
    by (simp only: sum_list_addf)
  also have "\<dots> = snd kv + sum_list (map snd kvs)"
    using Cons by (simp add: sum_list_if_eq)
  finally show ?case by (simp del: picked_Cons)
qed

lemma fold_iadd_length:
  "length (fold (\<lambda>(k, v) g. g[k := f ! k + v]) kvs g) = length g"
  by (induction kvs arbitrary: g) (auto simp: split_beta)

lemma fold_iadd_nth:
  "r < length g \<Longrightarrow>
   fold (\<lambda>(k, v) g. g[k := f ! k + v]) kvs g ! r
     = (case map_of (rev kvs) r of Some v \<Rightarrow> f ! r + v | None \<Rightarrow> g ! r)"
proof (induction kvs arbitrary: g)
  case Nil
  then show ?case by simp
next
  case (Cons kv kvs)
  obtain k v where kv: "kv = (k, v)" by (cases kv)
  have "fold (\<lambda>(k, v) g. g[k := f ! k + v]) (kv # kvs) g ! r
      = fold (\<lambda>(k, v) g. g[k := f ! k + v]) kvs (g[k := f ! k + v]) ! r"
    by (simp add: kv)
  also have "\<dots> = (case map_of (rev kvs) r of Some v \<Rightarrow> f ! r + v
                     | None \<Rightarrow> g[k := f ! k + v] ! r)"
    using Cons.prems by (intro Cons.IH) simp
  also have "\<dots> = (case map_of (rev (kv # kvs)) r of Some v \<Rightarrow> f ! r + v | None \<Rightarrow> g ! r)"
    using Cons.prems by (auto simp: kv map_add_def nth_list_update split: option.splits)
  finally show ?case .
qed

lemma iadd_at_Inr:
  assumes "iadd_at f idx vals = Inr f'"
    and "norm_indices (length f) idx = Inr ks" and "length vals = length ks"
  shows "f' = map (\<lambda>r. f ! r + scatter_zeros (zip ks vals) r) [0..<length f]"
proof -
  from assms have f': "f' = fold (\<lambda>(k, v) g. g[k := f ! k + v]) (zip ks vals) f"
    by (simp add: iadd_at_def broadcast_to_def)
  show ?thesis
  proof (rule nth_equalityI)
    show "length f' = length (map (\<lambda>r. f ! r + scatter_zeros (zip ks vals) r) [0..<length f])"
      by (simp add: f' fold_iadd_length)
  next
    fix r assume "r < length f'"
    then have r: "r < length f" by (simp add: f' fold_iadd_length)
    then show "f' ! r = map (\<lambda>r. f ! r + scatter_zeros (zip ks vals) r) [0..<length f] ! r"
      by (simp add: f' fold_iadd_nth scatter_zeros_def split: option.splits)
  qed
qed

lemma iadd_at_succeeds:
  assumes "norm_indices (length f) idx = Inr ks" and "length vals = length ks"
  shows "iadd_at f idx vals = Inr (map (\<lambda>r. f ! r + scatter_zeros (zip ks vals) r) [0..<length f])"
proof -
  from assms have "\<exists>f'. iadd_at f idx vals = Inr f'"
    by (simp add: iadd_at_def broadcast_to_def)
  then obtain f' where f': "iadd_at f idx vals = Inr f'" ..
  from iadd_at_Inr [OF f' assms] f' show ?thesis by simp
qed

lemma sum_list_map_add_nth:
  "sum_list (map (\<lambda>r. f ! r + g r) [0..<length f]) = sum_list f + sum_list (map g [0..<length f])"
  for f :: "real list"
proof -
  have "sum_list (map (\<lambda>r. f ! r + g r) [0..<length f])
      = sum_list (map ((!) f) [0..<length f]) + sum_list (map g [0..<length f])"
    by (simp add: sum_list_addf)
  then show ?thesis by (simp add: map_nth)
qed

subsection \<open>The angular block in closed form\<close>

lemma norm_indices_length: "norm_indices n is = Inr ks \<Longrightarrow> length ks = length is"
  by (auto simp: norm_indices_def dest: sequence_Inr)

lemma angle_dist_of_length:
  "angle_dist_of p pos cell_dim abi = Inr vector \<Longrightarrow> length vector = length abi"
  by (auto simp: angle_dist_of_def split: sum.splits if_splits dest!: norm_indices_length)

lemma cos_sin_theta_length:
  assumes "cos_sin_theta vector r_vector = Inr (cos_the, sin_the, r_prod)"
  shows "length cos_the = length vector div 2" "length sin_the = length vector div 2"
    "length r_prod = length vector div 2" "length r_vector = length vector"
  using assms by (auto simp: cos_sin_theta_def Let_def pairs_of_length split: if_splits)

lemma frc_angles_length:
  assumes "length r_vector = length vector" "length sin_the = length vector div 2"
    "length r_prod = length vector div 2"
  shows "length (frc_angles k0 vector r_vector sin_the r_prod) = length vector div 2"
  using assms by (simp add: frc_angles_def pairs_of_length)

lemma add_x_succeeds:
  assumes "norm_indices (length (f_beads_x acc)) idx = Inr ks" and "length vals = length ks"
  shows "add_x idx vals acc
    = Inr (acc\<lparr>f_beads_x := map (\<lambda>r. f_beads_x acc ! r + scatter_zeros (zip ks vals) r)
                               [0..<length (f_beads_x acc)]\<rparr>)"
  by (simp add: add_x_def iadd_at_succeeds [OF assms])

lemma add_y_succeeds:
  assumes "norm_indices (length (f_beads_y acc)) idx = Inr ks" and "length vals = length ks"
  shows "add_y idx vals acc
    = Inr (acc\<lparr>f_beads_y := map (\<lambda>r. f_beads_y acc ! r + scatter_zeros (zip ks vals) r)
                               [0..<length (f_beads_y acc)]\<rparr>)"
  by (simp add: add_y_def iadd_at_succeeds [OF assms])

lemma map_add_nth_again:
  "map (\<lambda>r. map (\<lambda>r. f r) [0..<n] ! r + g r) [0..<n] = map (\<lambda>r. f r + g r) [0..<n]"
  by simp

lemma angle_block_closed:
  assumes ad: "angle_dist_of p pos cell_dim abi = Inr vector"
    and cs: "cos_sin_theta vector (map (\<lambda>d. sqrt (sq_len d)) vector) = Inr (cos_the, sin_the, r_prod)"
    and ki: "norm_indices n (map fst ai) = Inr ki"
    and kj: "norm_indices n (map (\<lambda>t. fst (snd t)) ai) = Inr kj"
    and kk: "norm_indices n (map (\<lambda>t. snd (snd t)) ai) = Inr kk"
    and lx: "length (f_beads_x acc) = n" and ly: "length (f_beads_y acc) = n"
    and len: "length abi = 2 * length ai"
    and frc: "frc = frc_angles (angle_k0 p) vector (map (\<lambda>d. sqrt (sq_len d)) vector) sin_the r_prod"
  shows "angle_block p pos cell_dim ai abi acc
    = Inr (acc\<lparr>pot_energy := pot_energy acc + angle_k0 p * sum_list (map (\<lambda>c. c + 1) cos_the),
               f_beads_x := map (\<lambda>r. f_beads_x acc ! r
                   + scatter_zeros (zip ki (map (\<lambda>t. fst (fst t)) frc)) r
                   + scatter_zeros (zip kj (map (\<lambda>t. fst (fst (snd t))) frc)) r
                   + scatter_zeros (zip kk (map (\<lambda>t. fst (snd (snd t))) frc)) r) [0..<n],
               f_beads_y := map (\<lambda>r. f_beads_y acc ! r
                   + scatter_zeros (zip ki (map (\<lambda>t. snd (fst t)) frc)) r
                   + scatter_zeros (zip kj (map (\<lambda>t. snd (fst (snd t))) frc)) r
                   + scatter_zeros (zip kk (map (\<lambda>t. snd (snd (snd t))) frc)) r) [0..<n]\<rparr>)"
proof -
  have lv: "length vector = 2 * length ai" using angle_dist_of_length [OF ad] len by simp
  have lf: "length frc = length ai"
    unfolding frc using cos_sin_theta_length [OF cs] lv by (simp add: frc_angles_length)
  have li: "length ki = length ai" "length kj = length ai" "length kk = length ai"
    using norm_indices_length [OF ki] norm_indices_length [OF kj] norm_indices_length [OF kk]
    by simp_all
  let ?acc1 = "acc\<lparr>pot_energy := pot_energy acc + angle_k0 p * sum_list (map (\<lambda>c. c + 1) cos_the)\<rparr>"
  let ?x1 = "map (\<lambda>t. fst (fst t)) frc" and ?x2 = "map (\<lambda>t. fst (fst (snd t))) frc"
  let ?x3 = "map (\<lambda>t. fst (snd (snd t))) frc"
  let ?y1 = "map (\<lambda>t. snd (fst t)) frc" and ?y2 = "map (\<lambda>t. snd (fst (snd t))) frc"
  let ?y3 = "map (\<lambda>t. snd (snd (snd t))) frc"
  have s: "try_steps [add_x (map fst ai) ?x1, add_x (map (\<lambda>t. fst (snd t)) ai) ?x2,
                      add_x (map (\<lambda>t. snd (snd t)) ai) ?x3,
                      add_y (map fst ai) ?y1, add_y (map (\<lambda>t. fst (snd t)) ai) ?y2,
                      add_y (map (\<lambda>t. snd (snd t)) ai) ?y3] ?acc1
    = Inr (?acc1\<lparr>f_beads_x := map (\<lambda>r. f_beads_x acc ! r
                   + scatter_zeros (zip ki ?x1) r + scatter_zeros (zip kj ?x2) r
                   + scatter_zeros (zip kk ?x3) r) [0..<n],
               f_beads_y := map (\<lambda>r. f_beads_y acc ! r
                   + scatter_zeros (zip ki ?y1) r + scatter_zeros (zip kj ?y2) r
                   + scatter_zeros (zip kk ?y3) r) [0..<n]\<rparr>)"
    using ki kj kk lx ly lf li
    by (simp add: add_x_succeeds add_y_succeeds map_add_nth_again cong: map_cong)
  have "angle_block p pos cell_dim ai abi acc
      = try_steps [add_x (map fst ai) ?x1, add_x (map (\<lambda>t. fst (snd t)) ai) ?x2,
                      add_x (map (\<lambda>t. snd (snd t)) ai) ?x3,
                      add_y (map fst ai) ?y1, add_y (map (\<lambda>t. fst (snd t)) ai) ?y2,
                      add_y (map (\<lambda>t. snd (snd t)) ai) ?y3] ?acc1"
    unfolding angle_block_def ad by (simp add: Let_def cs frc comp_def del: try_steps.simps)
  with s show ?thesis by simp
qed

lemma frc_angle_closure:
  "fst (snd (frc_angle k0 vv rr s rp))
     = (- (fst (fst (frc_angle k0 vv rr s rp)) + fst (snd (snd (frc_angle k0 vv rr s rp)))),
        - (snd (fst (frc_angle k0 vv rr s rp)) + snd (snd (snd (frc_angle k0 vv rr s rp)))))"
  by (simp add: frc_angle_def Let_def)

lemma frc_angles_closure:
  assumes "t \<in> set (frc_angles k0 vector r_vector sin_the r_prod)"
  shows "fst (snd t) = (- (fst (fst t) + fst (snd (snd t))), - (snd (fst t) + snd (snd (snd t))))"
  using assms frc_angle_closure by (auto simp: frc_angles_def)

lemma frc_angles_sum_x:
  assumes "frc = frc_angles k0 vector r_vector sin_the r_prod"
  shows "sum_list (map (\<lambda>t. fst (fst t)) frc) + sum_list (map (\<lambda>t. fst (fst (snd t))) frc)
       + sum_list (map (\<lambda>t. fst (snd (snd t))) frc) = 0"
proof -
  have "sum_list (map (\<lambda>t. fst (fst t)) frc) + sum_list (map (\<lambda>t. fst (fst (snd t))) frc)
       + sum_list (map (\<lambda>t. fst (snd (snd t))) frc)
      = sum_list (map (\<lambda>t. fst (fst t) + fst (fst (snd t)) + fst (snd (snd t))) frc)"
    by (simp add: sum_list_addf)
  also have "\<dots> = sum_list (map (\<lambda>t. 0) frc)"
    by (rule arg_cong [where f = sum_list], rule map_cong)
       (simp_all add: assms frc_angles_closure)
  finally show ?thesis by simp
qed

lemma frc_angles_sum_y:
  assumes "frc = frc_angles k0 vector r_vector sin_the r_prod"
  shows "sum_list (map (\<lambda>t. snd (fst t)) frc) + sum_list (map (\<lambda>t. snd (fst (snd t))) frc)
       + sum_list (map (\<lambda>t. snd (snd (snd t))) frc) = 0"
proof -
  have "sum_list (map (\<lambda>t. snd (fst t)) frc) + sum_list (map (\<lambda>t. snd (fst (snd t))) frc)
       + sum_list (map (\<lambda>t. snd (snd (snd t))) frc)
      = sum_list (map (\<lambda>t. snd (fst t) + snd (fst (snd t)) + snd (snd (snd t))) frc)"
    by (simp add: sum_list_addf)
  also have "\<dots> = sum_list (map (\<lambda>t. 0) frc)"
    by (rule arg_cong [where f = sum_list], rule map_cong)
       (simp_all add: assms frc_angles_closure)
  finally show ?thesis by simp
qed

lemma sum_scatter_distinct:
  fixes vals :: "real list"
  assumes n: "norm_indices n is = Inr ks" and d: "distinct ks" and l: "length vals = length ks"
  shows "sum_list (map (scatter_zeros (zip ks vals)) [0..<n]) = sum_list vals"
proof -
  from d l have dz: "distinct (map fst (zip ks vals))" by simp
  have b: "\<forall>kv\<in>set (zip ks vals). fst kv < n"
    using norm_indices_Inr(2) [OF n] by (auto dest: set_zip_leftD)
  have "scatter_zeros (zip ks vals) = picked (zip ks vals)"
    by (rule ext) (rule scatter_zeros_distinct [OF dz])
  with sum_list_picked [OF b] l show ?thesis by simp
qed

lemma sum3_scatter:
  fixes f :: "real list"
  assumes ki: "norm_indices n is1 = Inr k1" "distinct k1" "length v1 = length k1"
    and kj: "norm_indices n is2 = Inr k2" "distinct k2" "length v2 = length k2"
    and kk: "norm_indices n is3 = Inr k3" "distinct k3" "length v3 = length k3"
    and lf: "length f = n"
  shows "sum_list (map (\<lambda>r. f ! r + scatter_zeros (zip k1 v1) r + scatter_zeros (zip k2 v2) r
                         + scatter_zeros (zip k3 v3) r) [0..<n])
       = sum_list f + (sum_list v1 + sum_list v2 + sum_list v3)"
proof -
  have "sum_list (map (\<lambda>r. f ! r + scatter_zeros (zip k1 v1) r + scatter_zeros (zip k2 v2) r
                         + scatter_zeros (zip k3 v3) r) [0..<n])
      = sum_list (map ((!) f) [0..<n]) + sum_list (map (scatter_zeros (zip k1 v1)) [0..<n])
        + sum_list (map (scatter_zeros (zip k2 v2)) [0..<n])
        + sum_list (map (scatter_zeros (zip k3 v3)) [0..<n])"
    by (simp add: sum_list_addf)
  also have "sum_list (map ((!) f) [0..<n]) = sum_list f"
    using map_nth [of f] lf by simp
  finally show ?thesis
    by (simp add: sum_scatter_distinct [OF ki] sum_scatter_distinct [OF kj]
        sum_scatter_distinct [OF kk])
qed

lemma angle_block_net_force:
  assumes res: "angle_block p pos cell_dim ai abi acc = Inr acc'"
    and ki: "norm_indices n (map fst ai) = Inr ki"
    and kj: "norm_indices n (map (\<lambda>t. fst (snd t)) ai) = Inr kj"
    and kk: "norm_indices n (map (\<lambda>t. snd (snd t)) ai) = Inr kk"
    and d: "distinct ki" "distinct kj" "distinct kk"
    and lx: "length (f_beads_x acc) = n" and ly: "length (f_beads_y acc) = n"
    and len: "length abi = 2 * length ai"
  shows "sum_list (f_beads_x acc') = sum_list (f_beads_x acc)
       \<and> sum_list (f_beads_y acc') = sum_list (f_beads_y acc)
       \<and> length (f_beads_x acc') = n \<and> length (f_beads_y acc') = n"
proof (cases "angle_dist_of p pos cell_dim abi")
  case (Inl e)
  with res show ?thesis using lx ly by (cases e) (simp_all add: angle_block_def)
next
  case ad: (Inr vector)
  show ?thesis
  proof (cases "cos_sin_theta vector (map (\<lambda>d. sqrt (sq_len d)) vector)")
    case (Inl e)
    with res ad show ?thesis using lx ly by (cases e) (simp_all add: angle_block_def)
  next
    case (Inr csr)
    obtain cos_the sin_the r_prod where csr: "csr = (cos_the, sin_the, r_prod)" by (cases csr)
    define frc where "frc = frc_angles (angle_k0 p) vector (map (\<lambda>d. sqrt (sq_len d)) vector)
                              sin_the r_prod"
    note cs = Inr [unfolded csr]
    have lv: "length vector = 2 * length ai" using angle_dist_of_length [OF ad] len by simp
    have lf: "length frc = length ai"
      unfolding frc_def using cos_sin_theta_length [OF cs] lv by (simp add: frc_angles_length)
    have li: "length ki = length ai" "length kj = length ai" "length kk = length ai"
      using norm_indices_length [OF ki] norm_indices_length [OF kj] norm_indices_length [OF kk]
      by simp_all
    note cl = angle_block_closed [OF ad cs ki kj kk lx ly len frc_def]
    from res cl have acc': "acc' = acc\<lparr>pot_energy := pot_energy acc + angle_k0 p * sum_list (map (\<lambda>c. c + 1) cos_the),
               f_beads_x := map (\<lambda>r. f_beads_x acc ! r
                   + scatter_zeros (zip ki (map (\<lambda>t. fst (fst t)) frc)) r
                   + scatter_zeros (zip kj (map (\<lambda>t. fst (fst (snd t))) frc)) r
                   + scatter_zeros (zip kk (map (\<lambda>t. fst (snd (snd t))) frc)) r) [0..<n],
               f_beads_y := map (\<lambda>r. f_beads_y acc ! r
                   + scatter_zeros (zip ki (map (\<lambda>t. snd (fst t)) frc)) r
                   + scatter_zeros (zip kj (map (\<lambda>t. snd (fst (snd t))) frc)) r
                   + scatter_zeros (zip kk (map (\<lambda>t. snd (snd (snd t))) frc)) r) [0..<n]\<rparr>"
      by simp
    have x: "sum_list (f_beads_x acc') = sum_list (f_beads_x acc)"
      unfolding acc' using frc_angles_sum_x [OF frc_def] lf li
      by (simp add: sum3_scatter [OF ki d(1) _ kj d(2) _ kk d(3) _ lx])
    have y: "sum_list (f_beads_y acc') = sum_list (f_beads_y acc)"
      unfolding acc' using frc_angles_sum_y [OF frc_def] lf li
      by (simp add: sum3_scatter [OF ki d(1) _ kj d(2) _ kk d(3) _ ly])
    from x y show ?thesis by (simp add: acc')
  qed
qed

lemma bond_block_length:
  assumes "bond_block ut p n pair_dist bidx fidx acc = Inr acc1"
  shows "length (f_beads_x acc1) = n \<and> length (f_beads_y acc1) = n"
  using assms by (auto simp: bond_block_def Let_def split: sum.splits)

lemma nonbond_block_net:
  assumes a: "nonbond_block ut p n pair_dist coeff vidx a = Inr a3"
    and b: "nonbond_block ut p n pair_dist coeff vidx b = Inr b3"
    and la: "length (f_beads_x a) = n" "length (f_beads_y a) = n"
    and lb: "length (f_beads_x b) = n" "length (f_beads_y b) = n"
    and sx: "sum_list (f_beads_x a) = sum_list (f_beads_x b)"
    and sy: "sum_list (f_beads_y a) = sum_list (f_beads_y b)"
  shows "sum_list (f_beads_x a3) = sum_list (f_beads_x b3)
       \<and> sum_list (f_beads_y a3) = sum_list (f_beads_y b3)
       \<and> length (f_beads_x a3) = n \<and> length (f_beads_y a3) = n
       \<and> length (f_beads_x b3) = n \<and> length (f_beads_y b3) = n"
proof -
  from a obtain ents where e: "nonbond_entries ut p coeff pair_dist = Inr ents"
    by (auto simp: nonbond_block_def split: sum.splits)
  let ?gx = "col_sum (map (map (\<lambda>e. fst (snd e))) ents)"
  let ?gy = "col_sum (map (map (\<lambda>e. snd (snd e))) ents)"
  from a e have ax: "f_beads_x a3 = map (\<lambda>q. f_beads_x a ! q + ?gx q) [0..<n]"
    and ay: "f_beads_y a3 = map (\<lambda>q. f_beads_y a ! q + ?gy q) [0..<n]"
    by (auto simp: nonbond_block_def Let_def split: sum.splits)
  from b e have bx: "f_beads_x b3 = map (\<lambda>q. f_beads_x b ! q + ?gx q) [0..<n]"
    and "by": "f_beads_y b3 = map (\<lambda>q. f_beads_y b ! q + ?gy q) [0..<n]"
    by (auto simp: nonbond_block_def Let_def split: sum.splits)
  have "sum_list (f_beads_x a3) = sum_list (f_beads_x a) + sum_list (map ?gx [0..<n])"
    unfolding ax using sum_list_map_add_nth [of "f_beads_x a" ?gx] la by simp
  moreover have "sum_list (f_beads_x b3) = sum_list (f_beads_x b) + sum_list (map ?gx [0..<n])"
    unfolding bx using sum_list_map_add_nth [of "f_beads_x b" ?gx] lb by simp
  moreover have "sum_list (f_beads_y a3) = sum_list (f_beads_y a) + sum_list (map ?gy [0..<n])"
    unfolding ay using sum_list_map_add_nth [of "f_beads_y a" ?gy] la by simp
  moreover have "sum_list (f_beads_y b3) = sum_list (f_beads_y b) + sum_list (map ?gy [0..<n])"
    unfolding "by" using sum_list_map_add_nth [of "f_beads_y b" ?gy] lb by simp
  ultimately show ?thesis using sx sy by (simp add: ax ay bx "by")
qed

lemma map_fst_zip_eq: "length xs = length ys \<Longrightarrow> map fst (zip xs ys) = xs"
  by (induction xs ys rule: list_induct2) auto

lemma map_snd_zip_eq: "length xs = length ys \<Longrightarrow> map snd (zip xs ys) = ys"
  by (induction xs ys rule: list_induct2) auto


text \<open>
  Over the reals: the row of \<open>frc_angle_k\<close> of an angle is the negative of the sum
  of its two rows of \<open>frc_angle_ij\<close> (line 195); and with valid angle indices, two
  bond vectors for each triplet, bond vectors and bonded displacements of nonzero length,
  and no bead twice in a column of \<open>angle_indices\<close>, the forces returned by
  \<open>calc_energy_forces\<close> sum to what they sum to without the angles. An isolated
  triplet is the smallest case: its three forces sum to the zero vector.
\<close>

lemma angular_force_closure:
  assumes res: "calc_energy_forces ut pos cell_dim ix p = Inr (e, f, v)"
    and res0: "calc_energy_forces ut pos cell_dim
                 (ix\<lparr>angle_indices := [], angle_bond_indices := []\<rparr>) p = Inr (e0, f0, v0)"
    and ki: "norm_indices (length pos) (map fst (angle_indices ix)) = Inr ki"
    and kj: "norm_indices (length pos) (map (\<lambda>t. fst (snd t)) (angle_indices ix)) = Inr kj"
    and kk: "norm_indices (length pos) (map (\<lambda>t. snd (snd t)) (angle_indices ix)) = Inr kk"
    and d: "distinct ki" "distinct kj" "distinct kk"
    and len: "length (angle_bond_indices ix) = 2 * length (angle_indices ix)"
    and ad: "angle_dist_of p pos cell_dim (angle_bond_indices ix) = Inr vector"
    and nz: "\<forall>d\<in>set vector. sq_len d \<noteq> 0"
    and dist: "get_distances_mpi pos (pos_indices ix) cell_dim = Inr pair_dist"
    and bs: "norm_indices2 (length pair_dist) (length pos) (bond_indices ix) = Inr bs"
    and bnz: "\<forall>b\<in>set bs. sq_len (pair_dist ! fst b ! snd b) \<noteq> 0"
  shows "(\<forall>t\<in>set (frc_angles (angle_k0 p) vector (map (\<lambda>d. sqrt (sq_len d)) vector)
                         sin_the r_prod).
            fst (snd t) = (- (fst (fst t) + fst (snd (snd t))), - (snd (fst t) + snd (snd (snd t)))))
       \<and> sum_list (map fst f) = sum_list (map fst f0)
       \<and> sum_list (map snd f) = sum_list (map snd f0)"
proof -
  let ?n = "length pos"
  from res obtain pd where pd: "get_distances_mpi pos (pos_indices ix) cell_dim = Inr pd"
    by (auto simp: calc_energy_forces_def Let_def split: sum.splits)
  have net: "sum_list (map fst f) = sum_list (map fst f0)
       \<and> sum_list (map snd f) = sum_list (map snd f0)"
  proof (cases "bond_indices ix = []")
    case True
    with res res0 pd show ?thesis
      by (auto simp: calc_energy_forces_def Let_def split: sum.splits)
  next
    case False
    from res pd False obtain acc1 acc2 acc3
      where b: "bond_block ut p ?n pd (bond_indices ix) (frc_indices ix) (acc_zero ?n) = Inr acc1"
        and a: "angle_block p pos cell_dim (angle_indices ix) (angle_bond_indices ix) acc1 = Inr acc2"
        and nb: "nonbond_block ut p ?n pd (vdw_coeff ix) (virial_indicies ix) acc2 = Inr acc3"
        and f: "f = zip (f_beads_x acc3) (f_beads_y acc3)"
      by (auto simp: calc_energy_forces_def Let_def split: sum.splits)
    from res0 pd False b obtain acc3'
      where nb0: "nonbond_block ut p ?n pd (vdw_coeff ix) (virial_indicies ix) acc1 = Inr acc3'"
        and f0: "f0 = zip (f_beads_x acc3') (f_beads_y acc3')"
      by (auto simp: calc_energy_forces_def Let_def angle_block_empty split: sum.splits)
    note l1 = bond_block_length [OF b]
    from angle_block_net_force [OF a ki kj kk d _ _ len] l1
    have a2: "sum_list (f_beads_x acc2) = sum_list (f_beads_x acc1)"
      "sum_list (f_beads_y acc2) = sum_list (f_beads_y acc1)"
      "length (f_beads_x acc2) = ?n" "length (f_beads_y acc2) = ?n"
      by simp_all
    from nonbond_block_net [OF nb nb0 a2(3,4) _ _ a2(1,2)] l1
    show ?thesis by (simp add: f f0 map_fst_zip_eq map_snd_zip_eq)
  qed
  from frc_angles_closure net show ?thesis by blast
qed

text \<open>The definitions an evaluation of \<open>calc_energy_forces\<close> with bonds and angles
  unfolds.\<close>

lemmas full_defs = calc_energy_forces_def get_distances_mpi_def min_image_def
      norm_indices_def norm_index_def nonbond_block_def nonbond_entries_def nonbond_entry_def
      norm_indices2_def norm_index2_def acc_zero_def coeff_at_def component_def
      virial_sum_def col_sum_def sq_len_def Let_def round_def ut_spec_def test_param_def
      no_indices_def power_divide
      bond_block_def bond_term_def broadcast_to_def row_sum_def scatter_zeros_def
      angle_block_def angle_dist_of_def angle_image_def trunc_int_def cos_sin_theta_def
      frc_angles_def frc_angle_def add_x_def add_y_def iadd_at_def upt_rec

text \<open>
  C8: for each angle triplet the angular force assigned to the middle bead is the negative
  of the sum of the angular forces assigned to the two outer beads, so that the angular
  forces sum to the zero vector. Line 195 computes the row of \<open>frc_angle_k\<close> of every
  triplet as that negative sum. Lines 198 to 204 ("Add angular forces to force array") add
  the rows with \<open>f_beads_x[angle_indices.T[1]] += frc_angle_k.T[0]\<close>, which numpy
  evaluates as one read, one addition and one write of the selected entries: for a bead
  that occurs twice in a column of \<open>angle_indices\<close> only the last of its rows is
  added. Five beads with the triplets \<open>(0, 1, 2)\<close> and \<open>(3, 1, 4)\<close>, which share the
  middle bead 1, one bond of stiffness zero and no pair within the cutoff: bead 1 is
  assigned \<open>(-52/375, -14/375)\<close>, the row of the second triplet; the row
  \<open>(39/500, 77/500)\<close> of the first triplet is lost, and the forces on the five beads
  sum to \<open>(-39/500, -77/500)\<close>.
\<close>

theorem shared_middle_bead_drops_force:
  "calc_energy_forces ut_spec [(1, 1), (4, 5), (4, 1), (8, 8), (4, 8)] (20, 20)
      (no_indices\<lparr>pos_indices := [0, 1, 2, 3, 4], bond_indices := [(0, 1)],
                   frc_indices := [(0, 1)],
                   angle_indices := [(0, 1, 2), (3, 1, 4)],
                   angle_bond_indices := [(0, 1), (2, 1), (3, 1), (4, 1)],
                   vdw_coeff := [[1, 1, 1, 1, 1], [1, 1, 1, 1, 1], [1, 1, 1, 1, 1],
                                 [1, 1, 1, 1, 1], [1, 1, 1, 1, 1]]\<rparr>)
      (test_param\<lparr>bond_k0 := 0, rc := 1\<rparr>)
    = Inr (17 / 5, [(- 3 / 20, - 1 / 20), (- 52 / 375, - 14 / 375), (9 / 125, - 13 / 125),
                    (4 / 15, - 1 / 15), (- 16 / 125, 13 / 125)],
           ((0, 0), (0, 0)))
   \<and> sum_list (map fst [(- 3 / 20, - 1 / 20), (- 52 / 375, - 14 / 375), (9 / 125, - 13 / 125),
                    (4 / 15, - 1 / 15), (- 16 / 125 :: real, 13 / 125 :: real)]) = - 39 / 500
   \<and> sum_list (map snd [(- 3 / 20, - 1 / 20), (- 52 / 375, - 14 / 375), (9 / 125, - 13 / 125),
                    (4 / 15, - 1 / 15), (- 16 / 125 :: real, 13 / 125 :: real)]) = - 77 / 500"
  by (simp add: full_defs)

text \<open>An isolated triplet: three beads, one bond of stiffness zero, no pair within the
  cutoff. Its three forces sum to the zero vector.\<close>

lemma triplet_eval:
  "calc_energy_forces ut_spec [(1, 1), (4, 5), (4, 1)] (10, 10)
      (no_indices\<lparr>pos_indices := [0, 1, 2], bond_indices := [(0, 1)], frc_indices := [(0, 1)],
                   angle_indices := [(0, 1, 2)], angle_bond_indices := [(0, 1), (2, 1)]\<rparr>)
      (test_param\<lparr>bond_k0 := 0, rc := 1\<rparr>)
    = Inr (9 / 5, [(- 3 / 20, - 1 / 20), (39 / 500, 77 / 500), (9 / 125, - 13 / 125)],
           ((0, 0), (0, 0)))"
  by (simp add: full_defs)

lemma triplet_eval0:
  "calc_energy_forces ut_spec [(1, 1), (4, 5), (4, 1)] (10, 10)
      (no_indices\<lparr>pos_indices := [0, 1, 2], bond_indices := [(0, 1)], frc_indices := [(0, 1)],
                   angle_indices := [(0, 1, 2)], angle_bond_indices := [(0, 1), (2, 1)],
                   angle_indices := [], angle_bond_indices := []\<rparr>)
      (test_param\<lparr>bond_k0 := 0, rc := 1\<rparr>)
    = Inr (0, [(0, 0), (0, 0), (0, 0)], ((0, 0), (0, 0)))"
  by (simp add: full_defs)



lemma angular_force_closure_example:
  "calc_energy_forces ut_spec [(1, 1), (4, 5), (4, 1)] (10, 10)
      (no_indices\<lparr>pos_indices := [0, 1, 2], bond_indices := [(0, 1)], frc_indices := [(0, 1)],
                   angle_indices := [(0, 1, 2)], angle_bond_indices := [(0, 1), (2, 1)]\<rparr>)
      (test_param\<lparr>bond_k0 := 0, rc := 1\<rparr>)
    = Inr (9 / 5, [(- 3 / 20, - 1 / 20), (39 / 500, 77 / 500), (9 / 125, - 13 / 125)],
           ((0, 0), (0, 0)))
   \<and> sum_list (map fst [(- 3 / 20, - 1 / 20), (39 / 500, 77 / 500), (9 / 125, - 13 / 125 :: real)])
       = sum_list (map fst [(0, 0), (0, 0), (0 :: real, 0 :: real)])
   \<and> sum_list (map snd [(- 3 / 20, - 1 / 20), (39 / 500, 77 / 500), (9 / 125 :: real, - 13 / 125)])
       = sum_list (map snd [(0, 0), (0, 0), (0 :: real, 0 :: real)])"
proof -
  let ?ix = "no_indices\<lparr>pos_indices := [0, 1, 2], bond_indices := [(0, 1)],
      frc_indices := [(0, 1)], angle_indices := [(0, 1, 2)],
      angle_bond_indices := [(0, 1), (2, 1)]\<rparr>"
  have i: "norm_indices (length [(1 :: real, 1 :: real), (4, 5), (4, 1)])
             (map fst (angle_indices ?ix)) = Inr [0]"
    and j: "norm_indices (length [(1 :: real, 1 :: real), (4, 5), (4, 1)])
             (map (\<lambda>t. fst (snd t)) (angle_indices ?ix)) = Inr [1]"
    and k: "norm_indices (length [(1 :: real, 1 :: real), (4, 5), (4, 1)])
             (map (\<lambda>t. snd (snd t)) (angle_indices ?ix)) = Inr [2]"
    by (simp_all add: norm_indices_def norm_index_def no_indices_def)
  have l: "length (angle_bond_indices ?ix) = 2 * length (angle_indices ?ix)"
    by (simp add: no_indices_def)
  have ad: "angle_dist_of (test_param\<lparr>bond_k0 := 0, rc := 1\<rparr>)
              [(1, 1), (4, 5), (4, 1)] (10, 10) (angle_bond_indices ?ix)
            = Inr [(- 3, - 4), (0, - 4)]"
    by (simp add: angle_dist_of_def norm_indices_def norm_index_def no_indices_def
        test_param_def angle_image_def trunc_int_def)
  have pd: "get_distances_mpi [(1, 1), (4, 5), (4, 1)] (pos_indices ?ix) (10, 10)
            = Inr [[(0, 0), (- 3, - 4), (- 3, 0)], [(3, 4), (0, 0), (0, 4)],
                   [(3, 0), (0, - 4), (0, 0)]]"
    by (simp add: get_distances_mpi_def norm_indices_def norm_index_def no_indices_def
        min_image_def round_def)
  have bs: "norm_indices2 (length [[(0 :: real, 0 :: real), (- 3, - 4), (- 3, 0)],
                                   [(3, 4), (0, 0), (0, 4)], [(3, 0), (0, - 4), (0, 0)]])
              (length [(1 :: real, 1 :: real), (4, 5), (4, 1)]) (bond_indices ?ix)
            = Inr [(0, 1)]"
    by (simp add: norm_indices2_def norm_index2_def norm_index_def no_indices_def)
  from angular_force_closure [OF triplet_eval triplet_eval0 i j k _ _ _ l ad _ pd bs]
    triplet_eval
  show ?thesis by (simp add: sq_len_def)
qed

section \<open>Partition invariance\<close>

subsection \<open>Index arrays of joined slices\<close>

lemma sequence_append:
  "sequence xs = Inr a \<Longrightarrow> sequence ys = Inr b \<Longrightarrow> sequence (xs @ ys) = Inr (a @ b)"
  by (induction xs arbitrary: a) (auto split: sum.splits)

lemma sequence_map_cong:
  "(\<And>x. x \<in> set xs \<Longrightarrow> f x = Inr (g x)) \<Longrightarrow> sequence (map f xs) = Inr (map g xs)"
  by (induction xs) auto

lemma sequence_map_Inr_D:
  "sequence (map f xs) = Inr ys \<Longrightarrow> x \<in> set xs \<Longrightarrow> \<exists>y. f x = Inr y"
  by (induction xs arbitrary: ys) (auto split: sum.splits)

lemma sequence_map_unique:
  assumes "sequence (map f xs) = Inr ys" and "\<And>x y. x \<in> set xs \<Longrightarrow> f x = Inr y \<Longrightarrow> y = g x"
  shows "ys = map g xs"
  using assms by (induction xs arbitrary: ys) (auto split: sum.splits)

lemma norm_index_bead_of: "norm_index n i = Inr k \<Longrightarrow> k = bead_of n i"
  by (auto simp: norm_index_def bead_of_def split: if_splits)

lemma norm_index_valid: "valid_index n i \<Longrightarrow> norm_index n i = Inr (bead_of n i)"
  by (auto simp: norm_index_def bead_of_def valid_index_def)

lemma norm_index_nonneg: "norm_index n i = Inr k \<Longrightarrow> 0 \<le> i \<Longrightarrow> i = int k"
  by (auto simp: norm_index_def split: if_splits)

lemma norm_indices_bead_of: "norm_indices n is = Inr ks \<Longrightarrow> ks = map (bead_of n) is"
  unfolding norm_indices_def by (rule sequence_map_unique) (auto dest: norm_index_bead_of)

lemma norm_indices_valid:
  "list_all (valid_index n) is \<Longrightarrow> norm_indices n is = Inr (map (bead_of n) is)"
  unfolding norm_indices_def
  by (rule sequence_map_cong) (auto simp: list_all_iff norm_index_valid)

lemma norm_indices_append:
  "norm_indices n xs = Inr a \<Longrightarrow> norm_indices n ys = Inr b
     \<Longrightarrow> norm_indices n (xs @ ys) = Inr (a @ b)"
  by (simp add: norm_indices_def sequence_append)

lemma norm_index2_Inr:
  "norm_index2 m n ij = Inr k \<Longrightarrow>
     k = (bead_of m (fst ij), bead_of n (snd ij)) \<and> fst k < m \<and> snd k < n"
  by (auto simp: norm_index2_def split: sum.splits
      dest: norm_index_bead_of norm_index_bound)

lemma norm_indices2_bead_of:
  "norm_indices2 m n is = Inr ks \<Longrightarrow> ks = map (\<lambda>ij. (bead_of m (fst ij), bead_of n (snd ij))) is"
  unfolding norm_indices2_def by (rule sequence_map_unique) (auto dest: norm_index2_Inr)

lemma norm_indices2_bound:
  assumes "norm_indices2 m n is = Inr ks" and "k \<in> set ks"
  shows "fst k < m \<and> snd k < n"
proof -
  from sequence_Inr [OF assms(1) [unfolded norm_indices2_def]]
  have l: "length ks = length is"
    and a: "\<forall>i<length is. norm_index2 m n (is ! i) = Inr (ks ! i)" by simp_all
  from assms(2) obtain i where "i < length ks" "ks ! i = k" by (auto simp: in_set_conv_nth)
  with l a show ?thesis by (auto dest: norm_index2_Inr)
qed

lemma norm_indices2_length: "norm_indices2 m n is = Inr ks \<Longrightarrow> length ks = length is"
  by (auto simp: norm_indices2_def dest: sequence_Inr)

lemma norm_indices2_append:
  "norm_indices2 m n xs = Inr a \<Longrightarrow> norm_indices2 m n ys = Inr b
     \<Longrightarrow> norm_indices2 m n (xs @ ys) = Inr (a @ b)"
  by (simp add: norm_indices2_def sequence_append)

lemma norm_index2_widen:
  assumes "norm_index2 ma n ij = Inr k" and "0 \<le> fst ij"
  shows "norm_index2 (ma + mb) n ij = Inr k"
  using assms by (auto simp: norm_index2_def norm_index_def split: sum.splits if_splits)

lemma norm_index2_shift:
  assumes "norm_index2 mb n ij = Inr k" and "0 \<le> fst ij"
  shows "norm_index2 (ma + mb) n (fst ij + int ma, snd ij) = Inr (fst k + ma, snd k)"
  using assms by (auto simp: norm_index2_def norm_index_def nat_add_distrib split: sum.splits if_splits)

lemma norm_indices2_widen:
  assumes n: "norm_indices2 ma n is = Inr ks" and nn: "list_all (\<lambda>ij. 0 \<le> fst ij) is"
  shows "norm_indices2 (ma + mb) n is = Inr ks"
proof -
  have ks: "ks = map (\<lambda>ij. (bead_of ma (fst ij), bead_of n (snd ij))) is"
    by (rule norm_indices2_bead_of [OF n])
  show ?thesis unfolding norm_indices2_def ks
  proof (rule sequence_map_cong)
    fix x assume x: "x \<in> set is"
    from sequence_map_Inr_D [OF n [unfolded norm_indices2_def] x]
    obtain k where k: "norm_index2 ma n x = Inr k" ..
    from x nn have "0 \<le> fst x" by (simp add: list_all_iff)
    from norm_index2_widen [OF k this] norm_index2_Inr [OF k]
    show "norm_index2 (ma + mb) n x = Inr (bead_of ma (fst x), bead_of n (snd x))" by simp
  qed
qed

lemma norm_indices2_shift:
  assumes n: "norm_indices2 mb n is = Inr ks" and nn: "list_all (\<lambda>ij. 0 \<le> fst ij) is"
  shows "norm_indices2 (ma + mb) n (shift_rows ma is) = Inr (map (\<lambda>k. (fst k + ma, snd k)) ks)"
proof -
  have ks: "ks = map (\<lambda>ij. (bead_of mb (fst ij), bead_of n (snd ij))) is"
    by (rule norm_indices2_bead_of [OF n])
  have "sequence (map (\<lambda>ij. norm_index2 (ma + mb) n (fst ij + int ma, snd ij)) is)
      = Inr (map (\<lambda>ij. (bead_of mb (fst ij) + ma, bead_of n (snd ij))) is)"
  proof (rule sequence_map_cong)
    fix x assume x: "x \<in> set is"
    from sequence_map_Inr_D [OF n [unfolded norm_indices2_def] x]
    obtain k where k: "norm_index2 mb n x = Inr k" ..
    from x nn have "0 \<le> fst x" by (simp add: list_all_iff)
    from norm_index2_shift [OF k this] norm_index2_Inr [OF k]
    show "norm_index2 (ma + mb) n (fst x + int ma, snd x)
            = Inr (bead_of mb (fst x) + ma, bead_of n (snd x))" by simp
  qed
  then show ?thesis
    by (simp add: norm_indices2_def shift_rows_def ks comp_def)
qed

subsection \<open>The bonded block of joined slices\<close>

lemma map2_same: "map2 f (map g xs) (map h xs) = map (\<lambda>x. f (g x) (h x)) xs"
  by (induction xs) auto

lemma scatter_append_distinct:
  fixes vA vB :: "real list"
  assumes d: "distinct (kA @ kB)" and l: "length vA = length kA" "length vB = length kB"
  shows "scatter_zeros (zip (kA @ kB) (vA @ vB)) r
       = scatter_zeros (zip kA vA) r + scatter_zeros (zip kB vB) r"
proof -
  from d l have "distinct (map fst (zip (kA @ kB) (vA @ vB)))"
    "distinct (map fst (zip kA vA))" "distinct (map fst (zip kB vB))" by simp_all
  then show ?thesis using l by (simp add: scatter_zeros_distinct)
qed

lemma row_sum_scatter_append:
  fixes vA vB :: "real list"
  assumes d: "distinct (kA @ kB)" and l: "length vA = length kA" "length vB = length kB"
  shows "row_sum n (scatter_zeros (zip (kA @ kB) (vA @ vB))) r
       = row_sum n (scatter_zeros (zip kA vA)) r + row_sum n (scatter_zeros (zip kB vB)) r"
  by (simp add: row_sum_def scatter_append_distinct [OF d l] sum_list_addf)

lemma acc_add_forces:
  fixes fa fb :: "real list"
  assumes "length fa = n" "length fb = n"
  shows "map (\<lambda>r. map2 (+) fa fb ! r + (ga r + gb r)) [0..<n]
       = map2 (+) (map (\<lambda>r. fa ! r + ga r) [0..<n]) (map (\<lambda>r. fb ! r + gb r) [0..<n])"
  using assms by (simp add: map2_same algebra_simps cong: map_cong)

lemma bond_block_closed:
  assumes "norm_indices2 (length pd) n bidx = Inr bs" and "norm_indices2 n n fidx = Inr fs"
    and "length fidx = length bidx"
    and "terms = map (\<lambda>k. bond_term ut p (pd ! fst k ! snd k)) bs"
  shows "bond_block ut p n pd bidx fidx acc
    = Inr (acc\<lparr>pot_energy := pot_energy acc + 0.5 * sum_list (map fst terms),
               f_beads_x := map (\<lambda>r. f_beads_x acc ! r
                   + row_sum n (scatter_zeros (zip fs (map (\<lambda>t. fst (snd t)) terms))) r) [0..<n],
               f_beads_y := map (\<lambda>r. f_beads_y acc ! r
                   + row_sum n (scatter_zeros (zip fs (map (\<lambda>t. snd (snd t)) terms))) r) [0..<n]\<rparr>)"
proof -
  have "length fs = length bs"
    using assms norm_indices2_length by fastforce
  then show ?thesis
    using assms(1,2) by (simp add: bond_block_def broadcast_to_def Let_def split_beta comp_def assms(4))
qed

lemma bond_block_Inr_D:
  assumes "bond_block ut p n pd bidx fidx acc = Inr acc'"
  shows "\<exists>bs fs. norm_indices2 (length pd) n bidx = Inr bs \<and> norm_indices2 n n fidx = Inr fs"
  using assms by (auto simp: bond_block_def Let_def split: sum.splits)

lemma bond_block_join:
  assumes A: "bond_block ut p n pdA bA fA a = Inr a'"
    and B: "bond_block ut p n pdB bB fB b = Inr b'"
    and len: "length fA = length bA" "length fB = length bB"
    and nn: "list_all (\<lambda>ij. 0 \<le> fst ij) bA" "list_all (\<lambda>ij. 0 \<le> fst ij) bB"
    and d: "distinct (map (\<lambda>ij. (bead_of n (fst ij), bead_of n (snd ij))) (fA @ fB))"
    and la: "length (f_beads_x a) = n" "length (f_beads_y a) = n"
    and lb: "length (f_beads_x b) = n" "length (f_beads_y b) = n"
  shows "bond_block ut p n (pdA @ pdB) (bA @ shift_rows (length pdA) bB) (fA @ fB) (acc_add a b)
       = Inr (acc_add a' b')"
proof -
  from bond_block_Inr_D [OF A] obtain bsA fsA
    where bsA: "norm_indices2 (length pdA) n bA = Inr bsA" and fsA: "norm_indices2 n n fA = Inr fsA"
    by blast
  from bond_block_Inr_D [OF B] obtain bsB fsB
    where bsB: "norm_indices2 (length pdB) n bB = Inr bsB" and fsB: "norm_indices2 n n fB = Inr fsB"
    by blast
  let ?sh = "map (\<lambda>k. (fst k + length pdA, snd k)) bsB"
  define tA where "tA = map (\<lambda>k. bond_term ut p (pdA ! fst k ! snd k)) bsA"
  define tB where "tB = map (\<lambda>k. bond_term ut p (pdB ! fst k ! snd k)) bsB"
  have bsJ: "norm_indices2 (length (pdA @ pdB)) n (bA @ shift_rows (length pdA) bB) = Inr (bsA @ ?sh)"
    using norm_indices2_append [OF norm_indices2_widen [OF bsA nn(1), of "length pdB"]
        norm_indices2_shift [OF bsB nn(2), of "length pdA"]] by simp
  have fsJ: "norm_indices2 n n (fA @ fB) = Inr (fsA @ fsB)"
    by (rule norm_indices2_append [OF fsA fsB])
  have lJ: "length (fA @ fB) = length (bA @ shift_rows (length pdA) bB)"
    using len by (simp add: shift_rows_def)
  have dJ: "distinct (fsA @ fsB)"
    using d norm_indices2_bead_of [OF fsA] norm_indices2_bead_of [OF fsB] by simp
  have lt: "length tA = length fsA" "length tB = length fsB"
    using len norm_indices2_length [OF bsA] norm_indices2_length [OF fsA]
      norm_indices2_length [OF bsB] norm_indices2_length [OF fsB] by (simp_all add: tA_def tB_def)
  have tJ: "tA @ tB = map (\<lambda>k. bond_term ut p ((pdA @ pdB) ! fst k ! snd k)) (bsA @ ?sh)"
    using norm_indices2_bound [OF bsA] by (auto simp: tA_def tB_def nth_append comp_def)
  note cA = bond_block_closed [OF bsA fsA len(1) tA_def, of a]
  note cB = bond_block_closed [OF bsB fsB len(2) tB_def, of b]
  note cJ = bond_block_closed [OF bsJ fsJ lJ tJ, of "acc_add a b"]
  have rs: "row_sum n (scatter_zeros (zip (fsA @ fsB) (map g (tA @ tB)))) r
      = row_sum n (scatter_zeros (zip fsA (map g tA))) r
        + row_sum n (scatter_zeros (zip fsB (map g tB))) r" for g :: "real \<times> vec2 \<Rightarrow> real" and r
    using row_sum_scatter_append [OF dJ, of "map g tA" "map g tB"] lt by simp
  have fx: "map (\<lambda>r. map2 (+) (f_beads_x a) (f_beads_x b) ! r
              + row_sum n (scatter_zeros (zip (fsA @ fsB) (map g (tA @ tB)))) r) [0..<n]
        = map2 (+) (map (\<lambda>r. f_beads_x a ! r + row_sum n (scatter_zeros (zip fsA (map g tA))) r) [0..<n])
                   (map (\<lambda>r. f_beads_x b ! r + row_sum n (scatter_zeros (zip fsB (map g tB))) r) [0..<n])"
    for g :: "real \<times> vec2 \<Rightarrow> real"
    unfolding rs by (rule acc_add_forces [OF la(1) lb(1)])
  have fy: "map (\<lambda>r. map2 (+) (f_beads_y a) (f_beads_y b) ! r
              + row_sum n (scatter_zeros (zip (fsA @ fsB) (map g (tA @ tB)))) r) [0..<n]
        = map2 (+) (map (\<lambda>r. f_beads_y a ! r + row_sum n (scatter_zeros (zip fsA (map g tA))) r) [0..<n])
                   (map (\<lambda>r. f_beads_y b ! r + row_sum n (scatter_zeros (zip fsB (map g tB))) r) [0..<n])"
    for g :: "real \<times> vec2 \<Rightarrow> real"
    unfolding rs by (rule acc_add_forces [OF la(2) lb(2)])
  from A cA have a': "a' = a\<lparr>pot_energy := pot_energy a + 0.5 * sum_list (map fst tA),
               f_beads_x := map (\<lambda>r. f_beads_x a ! r
                   + row_sum n (scatter_zeros (zip fsA (map (\<lambda>t. fst (snd t)) tA))) r) [0..<n],
               f_beads_y := map (\<lambda>r. f_beads_y a ! r
                   + row_sum n (scatter_zeros (zip fsA (map (\<lambda>t. snd (snd t)) tA))) r) [0..<n]\<rparr>"
    by simp
  from B cB have b': "b' = b\<lparr>pot_energy := pot_energy b + 0.5 * sum_list (map fst tB),
               f_beads_x := map (\<lambda>r. f_beads_x b ! r
                   + row_sum n (scatter_zeros (zip fsB (map (\<lambda>t. fst (snd t)) tB))) r) [0..<n],
               f_beads_y := map (\<lambda>r. f_beads_y b ! r
                   + row_sum n (scatter_zeros (zip fsB (map (\<lambda>t. snd (snd t)) tB))) r) [0..<n]\<rparr>"
    by simp
  have "acc_add a b\<lparr>pot_energy := pot_energy (acc_add a b) + 0.5 * sum_list (map fst (tA @ tB)),
               f_beads_x := map (\<lambda>r. f_beads_x (acc_add a b) ! r
                   + row_sum n (scatter_zeros (zip (fsA @ fsB) (map (\<lambda>t. fst (snd t)) (tA @ tB)))) r) [0..<n],
               f_beads_y := map (\<lambda>r. f_beads_y (acc_add a b) ! r
                   + row_sum n (scatter_zeros (zip (fsA @ fsB) (map (\<lambda>t. snd (snd t)) (tA @ tB)))) r) [0..<n]\<rparr>
      = acc_add a' b'"
    unfolding a' b' acc_add_def
    by (simp add: fx fy del: map_append) (simp add: algebra_simps)
  with cJ show ?thesis by simp
qed

subsection \<open>The angular block of joined slices\<close>

lemma pairs_of_append: "even (length xs) \<Longrightarrow> pairs_of (xs @ ys) = pairs_of xs @ pairs_of ys"
  by (induction xs rule: pairs_of.induct) auto

lemma map2_append:
  "length xs = length ys \<Longrightarrow> map2 f (xs @ xs') (ys @ ys') = map2 f xs ys @ map2 f xs' ys'"
  by simp

lemma sequence_map_Inl_D:
  "sequence (map f xs) = Inl e \<Longrightarrow> \<exists>x\<in>set xs. f x = Inl e"
  by (induction xs) (auto split: sum.splits)

lemma norm_indices_Inl: "norm_indices n is = Inl e \<Longrightarrow> e = IndexError"
  by (auto simp: norm_indices_def norm_index_def dest!: sequence_map_Inl_D split: if_splits)

lemma norm_indices2_Inl: "norm_indices2 m n is = Inl e \<Longrightarrow> e = IndexError"
  by (auto simp: norm_indices2_def norm_index2_def norm_index_def dest!: sequence_map_Inl_D
      split: if_splits sum.splits)

lemma angle_dist_of_high_dim: "2 < n_dim p \<Longrightarrow> angle_dist_of p pos cell_dim abi = Inl IndexError"
  by (auto simp: angle_dist_of_def split: sum.splits dest: norm_indices_Inl)

lemma angle_dist_of_valid:
  assumes "list_all (\<lambda>ab. valid_index (length pos) (fst ab) \<and> valid_index (length pos) (snd ab)) abi"
    and "\<not> 2 < n_dim p"
  shows "\<exists>vector. angle_dist_of p pos cell_dim abi = Inr vector"
proof -
  from assms(1) have "list_all (valid_index (length pos)) (map fst abi)"
    "list_all (valid_index (length pos)) (map snd abi)"
    by (simp_all add: list_all_iff)
  from norm_indices_valid [OF this(1)] norm_indices_valid [OF this(2)] assms(2)
  show ?thesis by (simp add: angle_dist_of_def)
qed

lemma angle_dist_of_append:
  assumes A: "angle_dist_of p pos cell_dim abA = Inr vA"
    and B: "angle_dist_of p pos cell_dim abB = Inr vB"
  shows "angle_dist_of p pos cell_dim (abA @ abB) = Inr (vA @ vB)"
proof -
  from A obtain iaA ibA where a: "norm_indices (length pos) (map fst abA) = Inr iaA"
      "norm_indices (length pos) (map snd abA) = Inr ibA" and nd: "\<not> 2 < n_dim p"
    by (auto simp: angle_dist_of_def split: sum.splits if_splits)
  from B obtain iaB ibB where b: "norm_indices (length pos) (map fst abB) = Inr iaB"
      "norm_indices (length pos) (map snd abB) = Inr ibB"
    by (auto simp: angle_dist_of_def split: sum.splits if_splits)
  have l: "length iaA = length ibA"
    using norm_indices_length [OF a(1)] norm_indices_length [OF a(2)] by simp
  from A B show ?thesis
    using nd l
    by (simp add: angle_dist_of_def norm_indices_append [OF a(1) b(1)]
        norm_indices_append [OF a(2) b(2)] a b)
qed

lemma cos_sin_theta_even:
  assumes "even (length vector)" "length r_vector = length vector"
  shows "\<exists>c s rp. cos_sin_theta vector r_vector = Inr (c, s, rp)"
  using assms by (simp add: cos_sin_theta_def Let_def)

lemma cos_sin_theta_append:
  assumes A: "cos_sin_theta vA rA = Inr (cA, sA, rpA)"
    and B: "cos_sin_theta vB rB = Inr (cB, sB, rpB)"
  shows "cos_sin_theta (vA @ vB) (rA @ rB) = Inr (cA @ cB, sA @ sB, rpA @ rpB)"
proof -
  from A have eA: "even (length vA)" "length rA = length vA"
    by (auto simp: cos_sin_theta_def split: if_splits)
  from B have eB: "even (length vB)" "length rB = length vB"
    by (auto simp: cos_sin_theta_def split: if_splits)
  from eA have erA: "even (length rA)" by simp
  from A B eA eB show ?thesis
    by (auto simp: cos_sin_theta_def Let_def pairs_of_append erA pairs_of_length)
qed

lemma frc_angles_append:
  assumes "even (length vA)" "length rA = length vA" "length sA = length vA div 2"
    "length rpA = length vA div 2"
  shows "frc_angles k0 (vA @ vB) (rA @ rB) (sA @ sB) (rpA @ rpB)
       = frc_angles k0 vA rA sA rpA @ frc_angles k0 vB rB sB rpB"
  using assms by (simp add: frc_angles_def pairs_of_append pairs_of_length)

lemma acc_add_forces3:
  fixes fa fb :: "real list"
  assumes "length fa = n" "length fb = n"
  shows "map (\<lambda>r. map2 (+) fa fb ! r + (a1 r + b1 r) + (a2 r + b2 r) + (a3 r + b3 r)) [0..<n]
       = map2 (+) (map (\<lambda>r. fa ! r + a1 r + a2 r + a3 r) [0..<n])
                  (map (\<lambda>r. fb ! r + b1 r + b2 r + b3 r) [0..<n])"
  using assms by (simp add: map2_same algebra_simps cong: map_cong)

lemma norm_indices_valid_map:
  assumes "\<And>t. t \<in> set xs \<Longrightarrow> valid_index n (g t)"
  shows "norm_indices n (map g xs) = Inr (map (\<lambda>t. bead_of n (g t)) xs)"
  using norm_indices_valid [of n "map g xs"] assms by (simp add: list_all_iff comp_def)

lemma angle_block_join:
  assumes A: "angle_block p pos cell_dim aiA abA a = Inr a'"
    and B: "angle_block p pos cell_dim aiB abB b = Inr b'"
    and vA: "list_all (\<lambda>t. valid_index (length pos) (fst t) \<and> valid_index (length pos) (fst (snd t))
                         \<and> valid_index (length pos) (snd (snd t))) aiA"
      "list_all (\<lambda>ab. valid_index (length pos) (fst ab) \<and> valid_index (length pos) (snd ab)) abA"
    and vB: "list_all (\<lambda>t. valid_index (length pos) (fst t) \<and> valid_index (length pos) (fst (snd t))
                         \<and> valid_index (length pos) (snd (snd t))) aiB"
      "list_all (\<lambda>ab. valid_index (length pos) (fst ab) \<and> valid_index (length pos) (snd ab)) abB"
    and len: "length abA = 2 * length aiA" "length abB = 2 * length aiB"
    and d: "distinct (map (\<lambda>t. bead_of (length pos) (fst t)) (aiA @ aiB))"
      "distinct (map (\<lambda>t. bead_of (length pos) (fst (snd t))) (aiA @ aiB))"
      "distinct (map (\<lambda>t. bead_of (length pos) (snd (snd t))) (aiA @ aiB))"
    and la: "length (f_beads_x a) = length pos" "length (f_beads_y a) = length pos"
    and lb: "length (f_beads_x b) = length pos" "length (f_beads_y b) = length pos"
  shows "angle_block p pos cell_dim (aiA @ aiB) (abA @ abB) (acc_add a b) = Inr (acc_add a' b')"
proof (cases "2 < n_dim p")
  case True
  from A B show ?thesis
    by (simp add: angle_block_def angle_dist_of_high_dim [OF True])
next
  case False
  let ?n = "length pos"
  let ?sq = "map (\<lambda>d. sqrt (sq_len d))"
  from angle_dist_of_valid [OF vA(2) False] obtain vecA
    where adA: "angle_dist_of p pos cell_dim abA = Inr vecA" ..
  from angle_dist_of_valid [OF vB(2) False] obtain vecB
    where adB: "angle_dist_of p pos cell_dim abB = Inr vecB" ..
  have lvA: "length vecA = 2 * length aiA" and lvB: "length vecB = 2 * length aiB"
    using angle_dist_of_length [OF adA] angle_dist_of_length [OF adB] len by simp_all
  from cos_sin_theta_even [of vecA "?sq vecA"] lvA obtain cA sA rpA
    where csA: "cos_sin_theta vecA (?sq vecA) = Inr (cA, sA, rpA)" by auto
  from cos_sin_theta_even [of vecB "?sq vecB"] lvB obtain cB sB rpB
    where csB: "cos_sin_theta vecB (?sq vecB) = Inr (cB, sB, rpB)" by auto
  define frcA where "frcA = frc_angles (angle_k0 p) vecA (?sq vecA) sA rpA"
  define frcB where "frcB = frc_angles (angle_k0 p) vecB (?sq vecB) sB rpB"
  define kiA where "kiA = map (\<lambda>t. bead_of ?n (fst t)) aiA"
  define kjA where "kjA = map (\<lambda>t. bead_of ?n (fst (snd t))) aiA"
  define kkA where "kkA = map (\<lambda>t. bead_of ?n (snd (snd t))) aiA"
  define kiB where "kiB = map (\<lambda>t. bead_of ?n (fst t)) aiB"
  define kjB where "kjB = map (\<lambda>t. bead_of ?n (fst (snd t))) aiB"
  define kkB where "kkB = map (\<lambda>t. bead_of ?n (snd (snd t))) aiB"
  have nA: "norm_indices ?n (map fst aiA) = Inr kiA"
    "norm_indices ?n (map (\<lambda>t. fst (snd t)) aiA) = Inr kjA"
    "norm_indices ?n (map (\<lambda>t. snd (snd t)) aiA) = Inr kkA"
    unfolding kiA_def kjA_def kkA_def
    by (rule norm_indices_valid_map, use vA(1) in \<open>simp add: list_all_iff\<close>)+
  have nB: "norm_indices ?n (map fst aiB) = Inr kiB"
    "norm_indices ?n (map (\<lambda>t. fst (snd t)) aiB) = Inr kjB"
    "norm_indices ?n (map (\<lambda>t. snd (snd t)) aiB) = Inr kkB"
    unfolding kiB_def kjB_def kkB_def
    by (rule norm_indices_valid_map, use vB(1) in \<open>simp add: list_all_iff\<close>)+
  have nJ: "norm_indices ?n (map fst (aiA @ aiB)) = Inr (kiA @ kiB)"
    "norm_indices ?n (map (\<lambda>t. fst (snd t)) (aiA @ aiB)) = Inr (kjA @ kjB)"
    "norm_indices ?n (map (\<lambda>t. snd (snd t)) (aiA @ aiB)) = Inr (kkA @ kkB)"
    using norm_indices_append [OF nA(1) nB(1)] norm_indices_append [OF nA(2) nB(2)]
      norm_indices_append [OF nA(3) nB(3)] by simp_all
  have dJ: "distinct (kiA @ kiB)" "distinct (kjA @ kjB)" "distinct (kkA @ kkB)"
    using d by (simp_all add: kiA_def kiB_def kjA_def kjB_def kkA_def kkB_def comp_def)
  have adJ: "angle_dist_of p pos cell_dim (abA @ abB) = Inr (vecA @ vecB)"
    by (rule angle_dist_of_append [OF adA adB])
  have csJ: "cos_sin_theta (vecA @ vecB) (?sq (vecA @ vecB)) = Inr (cA @ cB, sA @ sB, rpA @ rpB)"
    using cos_sin_theta_append [OF csA csB] by simp
  have lfA: "length frcA = length aiA" and lfB: "length frcB = length aiB"
    unfolding frcA_def frcB_def
    using cos_sin_theta_length [OF csA] cos_sin_theta_length [OF csB] lvA lvB
    by (simp_all add: frc_angles_length)
  have frcJ: "frcA @ frcB = frc_angles (angle_k0 p) (vecA @ vecB) (?sq (vecA @ vecB))
                              (sA @ sB) (rpA @ rpB)"
    unfolding frcA_def frcB_def
    using frc_angles_append [of vecA "?sq vecA" sA rpA] cos_sin_theta_length [OF csA] lvA
    by simp
  have lenJ: "length (abA @ abB) = 2 * length (aiA @ aiB)" using len by simp
  have lJ: "length (f_beads_x (acc_add a b)) = ?n" "length (f_beads_y (acc_add a b)) = ?n"
    using la lb by (simp_all add: acc_add_def)
  note cA = angle_block_closed [OF adA csA nA la len(1) frcA_def]
  note cB = angle_block_closed [OF adB csB nB lb len(2) frcB_def]
  note cJ = angle_block_closed [OF adJ csJ nJ lJ lenJ frcJ]
  have lk: "length kiA = length aiA" "length kjA = length aiA" "length kkA = length aiA"
    "length kiB = length aiB" "length kjB = length aiB" "length kkB = length aiB"
    by (simp_all add: kiA_def kiB_def kjA_def kjB_def kkA_def kkB_def)
  have sc: "scatter_zeros (zip (kA @ kB) (map g (frcA @ frcB))) r
      = scatter_zeros (zip kA (map g frcA)) r + scatter_zeros (zip kB (map g frcB)) r"
    if "distinct (kA @ kB)" "length kA = length aiA" "length kB = length aiB"
    for g :: "vec2 \<times> vec2 \<times> vec2 \<Rightarrow> real" and kA kB :: "nat list" and r
    using scatter_append_distinct [OF that(1), of "map g frcA" "map g frcB"] that(2,3) lfA lfB
    by simp
  have fx: "map (\<lambda>r. map2 (+) (f_beads_x a) (f_beads_x b) ! r
              + scatter_zeros (zip (kiA @ kiB) (map g1 (frcA @ frcB))) r
              + scatter_zeros (zip (kjA @ kjB) (map g2 (frcA @ frcB))) r
              + scatter_zeros (zip (kkA @ kkB) (map g3 (frcA @ frcB))) r) [0..<?n]
        = map2 (+) (map (\<lambda>r. f_beads_x a ! r + scatter_zeros (zip kiA (map g1 frcA)) r
                      + scatter_zeros (zip kjA (map g2 frcA)) r
                      + scatter_zeros (zip kkA (map g3 frcA)) r) [0..<?n])
                   (map (\<lambda>r. f_beads_x b ! r + scatter_zeros (zip kiB (map g1 frcB)) r
                      + scatter_zeros (zip kjB (map g2 frcB)) r
                      + scatter_zeros (zip kkB (map g3 frcB)) r) [0..<?n])"
    for g1 g2 g3 :: "vec2 \<times> vec2 \<times> vec2 \<Rightarrow> real"
    unfolding sc [OF dJ(1) lk(1,4)] sc [OF dJ(2) lk(2,5)] sc [OF dJ(3) lk(3,6)]
    by (rule acc_add_forces3 [OF la(1) lb(1)])
  have fy: "map (\<lambda>r. map2 (+) (f_beads_y a) (f_beads_y b) ! r
              + scatter_zeros (zip (kiA @ kiB) (map g1 (frcA @ frcB))) r
              + scatter_zeros (zip (kjA @ kjB) (map g2 (frcA @ frcB))) r
              + scatter_zeros (zip (kkA @ kkB) (map g3 (frcA @ frcB))) r) [0..<?n]
        = map2 (+) (map (\<lambda>r. f_beads_y a ! r + scatter_zeros (zip kiA (map g1 frcA)) r
                      + scatter_zeros (zip kjA (map g2 frcA)) r
                      + scatter_zeros (zip kkA (map g3 frcA)) r) [0..<?n])
                   (map (\<lambda>r. f_beads_y b ! r + scatter_zeros (zip kiB (map g1 frcB)) r
                      + scatter_zeros (zip kjB (map g2 frcB)) r
                      + scatter_zeros (zip kkB (map g3 frcB)) r) [0..<?n])"
    for g1 g2 g3 :: "vec2 \<times> vec2 \<times> vec2 \<Rightarrow> real"
    unfolding sc [OF dJ(1) lk(1,4)] sc [OF dJ(2) lk(2,5)] sc [OF dJ(3) lk(3,6)]
    by (rule acc_add_forces3 [OF la(2) lb(2)])
  from A cA have a': "a' = a\<lparr>pot_energy := pot_energy a + angle_k0 p * sum_list (map (\<lambda>c. c + 1) cA),
               f_beads_x := map (\<lambda>r. f_beads_x a ! r
                   + scatter_zeros (zip kiA (map (\<lambda>t. fst (fst t)) frcA)) r
                   + scatter_zeros (zip kjA (map (\<lambda>t. fst (fst (snd t))) frcA)) r
                   + scatter_zeros (zip kkA (map (\<lambda>t. fst (snd (snd t))) frcA)) r) [0..<?n],
               f_beads_y := map (\<lambda>r. f_beads_y a ! r
                   + scatter_zeros (zip kiA (map (\<lambda>t. snd (fst t)) frcA)) r
                   + scatter_zeros (zip kjA (map (\<lambda>t. snd (fst (snd t))) frcA)) r
                   + scatter_zeros (zip kkA (map (\<lambda>t. snd (snd (snd t))) frcA)) r) [0..<?n]\<rparr>"
    by simp
  from B cB have b': "b' = b\<lparr>pot_energy := pot_energy b + angle_k0 p * sum_list (map (\<lambda>c. c + 1) cB),
               f_beads_x := map (\<lambda>r. f_beads_x b ! r
                   + scatter_zeros (zip kiB (map (\<lambda>t. fst (fst t)) frcB)) r
                   + scatter_zeros (zip kjB (map (\<lambda>t. fst (fst (snd t))) frcB)) r
                   + scatter_zeros (zip kkB (map (\<lambda>t. fst (snd (snd t))) frcB)) r) [0..<?n],
               f_beads_y := map (\<lambda>r. f_beads_y b ! r
                   + scatter_zeros (zip kiB (map (\<lambda>t. snd (fst t)) frcB)) r
                   + scatter_zeros (zip kjB (map (\<lambda>t. snd (fst (snd t))) frcB)) r
                   + scatter_zeros (zip kkB (map (\<lambda>t. snd (snd (snd t))) frcB)) r) [0..<?n]\<rparr>"
    by simp
  have "acc_add a b\<lparr>pot_energy := pot_energy (acc_add a b)
                        + angle_k0 p * sum_list (map (\<lambda>c. c + 1) (cA @ cB)),
               f_beads_x := map (\<lambda>r. f_beads_x (acc_add a b) ! r
                   + scatter_zeros (zip (kiA @ kiB) (map (\<lambda>t. fst (fst t)) (frcA @ frcB))) r
                   + scatter_zeros (zip (kjA @ kjB) (map (\<lambda>t. fst (fst (snd t))) (frcA @ frcB))) r
                   + scatter_zeros (zip (kkA @ kkB) (map (\<lambda>t. fst (snd (snd t))) (frcA @ frcB))) r) [0..<?n],
               f_beads_y := map (\<lambda>r. f_beads_y (acc_add a b) ! r
                   + scatter_zeros (zip (kiA @ kiB) (map (\<lambda>t. snd (fst t)) (frcA @ frcB))) r
                   + scatter_zeros (zip (kjA @ kjB) (map (\<lambda>t. snd (fst (snd t))) (frcA @ frcB))) r
                   + scatter_zeros (zip (kkA @ kkB) (map (\<lambda>t. snd (snd (snd t))) (frcA @ frcB))) r) [0..<?n]\<rparr>
      = acc_add a' b'"
    unfolding a' b' acc_add_def
    by (simp add: fx fy del: map_append) (simp add: algebra_simps)
  with cJ show ?thesis by simp
qed

subsection \<open>The non-bonded block of joined slices\<close>

lemma coeff_at_append_left: "m < length cA \<Longrightarrow> coeff_at (cA @ cB) m q = coeff_at cA m q"
  by (simp add: coeff_at_def nth_append)

lemma coeff_at_append_right: "coeff_at (cA @ cB) (length cA + m) q = coeff_at cB m q"
  by (simp add: coeff_at_def nth_append)

lemma nonbond_entry_append_left:
  "m < length cA \<Longrightarrow> nonbond_entry ut p (cA @ cB) m q d = nonbond_entry ut p cA m q d"
  unfolding nonbond_entry_def by (simp only: coeff_at_append_left)

lemma nonbond_entry_append_right:
  "nonbond_entry ut p (cA @ cB) (length cA + m) q d = nonbond_entry ut p cB m q d"
  unfolding nonbond_entry_def by (simp only: coeff_at_append_right)

lemma nonbond_entries_append:
  assumes A: "nonbond_entries ut p cA pdA = Inr eA"
    and B: "nonbond_entries ut p cB pdB = Inr eB"
    and l: "length cA = length pdA"
  shows "nonbond_entries ut p (cA @ cB) (pdA @ pdB) = Inr (eA @ eB)"
proof -
  let ?F = "\<lambda>c (m, row). sequence (map (\<lambda>(q, d). nonbond_entry ut p c m q d) (enumerate 0 row))"
  have fa: "(\<lambda>(q, d). nonbond_entry ut p (cA @ cB) m q d) = (\<lambda>(q, d). nonbond_entry ut p cA m q d)"
    if "m < length cA" for m
    using that by (simp add: nonbond_entry_append_left)
  have fb: "(\<lambda>(q, d). nonbond_entry ut p (cA @ cB) (length cA + m) q d)
          = (\<lambda>(q, d). nonbond_entry ut p cB m q d)" for m
    by (simp add: nonbond_entry_append_right)
  have a: "map (?F (cA @ cB)) (enumerate 0 pdA) = map (?F cA) (enumerate 0 pdA)"
    by (rule map_cong) (auto simp: in_set_enumerate_eq l fa)
  have b: "map (?F (cA @ cB)) (enumerate (length pdA) pdB) = map (?F cB) (enumerate 0 pdB)"
    by (rule nth_equalityI)
       (auto simp: nth_enumerate_eq l [symmetric] fb)
  have "nonbond_entries ut p (cA @ cB) (pdA @ pdB)
      = sequence (map (?F cA) (enumerate 0 pdA) @ map (?F cB) (enumerate 0 pdB))"
    by (simp add: nonbond_entries_def enumerate_append_eq a b)
  also have "\<dots> = Inr (eA @ eB)"
    using A B by (intro sequence_append) (simp_all add: nonbond_entries_def)
  finally show ?thesis .
qed

lemma nonbond_entries_length: "nonbond_entries ut p c pd = Inr e \<Longrightarrow> length e = length pd"
  by (auto simp: nonbond_entries_def dest: sequence_Inr)

lemma virial_sum_append:
  assumes le: "length eA = length pdA"
    and bA: "\<forall>k\<in>set vsA. fst k < length pdA"
  shows "virial_sum (eA @ eB) (pdA @ pdB) (vsA @ map (\<lambda>k. (fst k + length pdA, snd k)) vsB) i j
       = virial_sum eA pdA vsA i j + virial_sum eB pdB vsB i j"
proof -
  have a: "map (\<lambda>(m, q). component i (snd ((eA @ eB) ! m ! q)) * component i ((pdA @ pdB) ! m ! q)
                    * component j ((pdA @ pdB) ! m ! q)) vsA
         = map (\<lambda>(m, q). component i (snd (eA ! m ! q)) * component i (pdA ! m ! q)
                    * component j (pdA ! m ! q)) vsA"
    using bA le by (auto simp: nth_append)
  have b: "map (\<lambda>(m, q). component i (snd ((eA @ eB) ! m ! q)) * component i ((pdA @ pdB) ! m ! q)
                    * component j ((pdA @ pdB) ! m ! q)) (map (\<lambda>k. (fst k + length pdA, snd k)) vsB)
         = map (\<lambda>(m, q). component i (snd (eB ! m ! q)) * component i (pdB ! m ! q)
                    * component j (pdB ! m ! q)) vsB"
    using le by (auto simp: nth_append)
  show ?thesis unfolding virial_sum_def map_append sum_list_append a b ..
qed

lemma col_sum_append: "col_sum (xs @ ys) q = col_sum xs q + col_sum ys q"
  by (simp add: col_sum_def)

lemma nonbond_block_closed:
  assumes "nonbond_entries ut p coeff pd = Inr ents" and "norm_indices2 (length pd) n vidx = Inr vs"
  shows "nonbond_block ut p n pd coeff vidx acc
    = Inr (acc\<lparr>pot_energy := pot_energy acc
                                 + sum_list (map (\<lambda>row. sum_list (map fst row)) ents) / 2,
               virial_tensor :=
                 ((fst (fst (virial_tensor acc)) + virial_sum ents pd vs 0 0,
                   snd (fst (virial_tensor acc)) + virial_sum ents pd vs 0 1),
                  (fst (snd (virial_tensor acc)) + virial_sum ents pd vs 1 0,
                   snd (snd (virial_tensor acc)) + virial_sum ents pd vs 1 1)),
               f_beads_x := map (\<lambda>q. f_beads_x acc ! q
                                   + col_sum (map (map (\<lambda>e. fst (snd e))) ents) q) [0..<n],
               f_beads_y := map (\<lambda>q. f_beads_y acc ! q
                                   + col_sum (map (map (\<lambda>e. snd (snd e))) ents) q) [0..<n]\<rparr>)"
  using assms by (simp add: nonbond_block_def Let_def)

lemma nonbond_block_Inr_D:
  assumes "nonbond_block ut p n pd coeff vidx acc = Inr acc'"
  shows "\<exists>ents vs. nonbond_entries ut p coeff pd = Inr ents
            \<and> norm_indices2 (length pd) n vidx = Inr vs"
  using assms by (auto simp: nonbond_block_def Let_def split: sum.splits)

lemma nonbond_block_join:
  assumes A: "nonbond_block ut p n pdA cA vA a = Inr a'"
    and B: "nonbond_block ut p n pdB cB vB b = Inr b'"
    and l: "length cA = length pdA"
    and nn: "list_all (\<lambda>ij. 0 \<le> fst ij) vA" "list_all (\<lambda>ij. 0 \<le> fst ij) vB"
    and la: "length (f_beads_x a) = n" "length (f_beads_y a) = n"
    and lb: "length (f_beads_x b) = n" "length (f_beads_y b) = n"
  shows "nonbond_block ut p n (pdA @ pdB) (cA @ cB) (vA @ shift_rows (length pdA) vB) (acc_add a b)
       = Inr (acc_add a' b')"
proof -
  from nonbond_block_Inr_D [OF A] obtain eA vsA
    where eA: "nonbond_entries ut p cA pdA = Inr eA"
      and vsA: "norm_indices2 (length pdA) n vA = Inr vsA" by blast
  from nonbond_block_Inr_D [OF B] obtain eB vsB
    where eB: "nonbond_entries ut p cB pdB = Inr eB"
      and vsB: "norm_indices2 (length pdB) n vB = Inr vsB" by blast
  let ?sh = "map (\<lambda>k. (fst k + length pdA, snd k)) vsB"
  have eJ: "nonbond_entries ut p (cA @ cB) (pdA @ pdB) = Inr (eA @ eB)"
    by (rule nonbond_entries_append [OF eA eB l])
  have vsJ: "norm_indices2 (length (pdA @ pdB)) n (vA @ shift_rows (length pdA) vB)
               = Inr (vsA @ ?sh)"
    using norm_indices2_append [OF norm_indices2_widen [OF vsA nn(1), of "length pdB"]
        norm_indices2_shift [OF vsB nn(2), of "length pdA"]] by simp
  have vs: "virial_sum (eA @ eB) (pdA @ pdB) (vsA @ ?sh) i j
          = virial_sum eA pdA vsA i j + virial_sum eB pdB vsB i j" for i j
    using norm_indices2_bound [OF vsA]
    by (intro virial_sum_append) (auto simp: nonbond_entries_length [OF eA])
  have cs: "col_sum (map g (eA @ eB)) q = col_sum (map g eA) q + col_sum (map g eB) q"
    for g :: "(real \<times> vec2) list \<Rightarrow> real list" and q
    by (simp add: col_sum_append)
  have fx: "map (\<lambda>q. map2 (+) (f_beads_x a) (f_beads_x b) ! q + col_sum (map g (eA @ eB)) q) [0..<n]
        = map2 (+) (map (\<lambda>q. f_beads_x a ! q + col_sum (map g eA) q) [0..<n])
                   (map (\<lambda>q. f_beads_x b ! q + col_sum (map g eB) q) [0..<n])"
    for g :: "(real \<times> vec2) list \<Rightarrow> real list"
    unfolding cs by (rule acc_add_forces [OF la(1) lb(1)])
  have fy: "map (\<lambda>q. map2 (+) (f_beads_y a) (f_beads_y b) ! q + col_sum (map g (eA @ eB)) q) [0..<n]
        = map2 (+) (map (\<lambda>q. f_beads_y a ! q + col_sum (map g eA) q) [0..<n])
                   (map (\<lambda>q. f_beads_y b ! q + col_sum (map g eB) q) [0..<n])"
    for g :: "(real \<times> vec2) list \<Rightarrow> real list"
    unfolding cs by (rule acc_add_forces [OF la(2) lb(2)])
  note cA = nonbond_block_closed [OF eA vsA, of a]
  note cB = nonbond_block_closed [OF eB vsB, of b]
  note cJ = nonbond_block_closed [OF eJ vsJ, of "acc_add a b"]
  from A cA have a': "a' = a\<lparr>pot_energy := pot_energy a
                                 + sum_list (map (\<lambda>row. sum_list (map fst row)) eA) / 2,
               virial_tensor :=
                 ((fst (fst (virial_tensor a)) + virial_sum eA pdA vsA 0 0,
                   snd (fst (virial_tensor a)) + virial_sum eA pdA vsA 0 1),
                  (fst (snd (virial_tensor a)) + virial_sum eA pdA vsA 1 0,
                   snd (snd (virial_tensor a)) + virial_sum eA pdA vsA 1 1)),
               f_beads_x := map (\<lambda>q. f_beads_x a ! q
                                   + col_sum (map (map (\<lambda>e. fst (snd e))) eA) q) [0..<n],
               f_beads_y := map (\<lambda>q. f_beads_y a ! q
                                   + col_sum (map (map (\<lambda>e. snd (snd e))) eA) q) [0..<n]\<rparr>"
    by simp
  from B cB have b': "b' = b\<lparr>pot_energy := pot_energy b
                                 + sum_list (map (\<lambda>row. sum_list (map fst row)) eB) / 2,
               virial_tensor :=
                 ((fst (fst (virial_tensor b)) + virial_sum eB pdB vsB 0 0,
                   snd (fst (virial_tensor b)) + virial_sum eB pdB vsB 0 1),
                  (fst (snd (virial_tensor b)) + virial_sum eB pdB vsB 1 0,
                   snd (snd (virial_tensor b)) + virial_sum eB pdB vsB 1 1)),
               f_beads_x := map (\<lambda>q. f_beads_x b ! q
                                   + col_sum (map (map (\<lambda>e. fst (snd e))) eB) q) [0..<n],
               f_beads_y := map (\<lambda>q. f_beads_y b ! q
                                   + col_sum (map (map (\<lambda>e. snd (snd e))) eB) q) [0..<n]\<rparr>"
    by simp
  have "acc_add a b\<lparr>pot_energy := pot_energy (acc_add a b)
                                 + sum_list (map (\<lambda>row. sum_list (map fst row)) (eA @ eB)) / 2,
               virial_tensor :=
                 ((fst (fst (virial_tensor (acc_add a b))) + virial_sum (eA @ eB) (pdA @ pdB) (vsA @ ?sh) 0 0,
                   snd (fst (virial_tensor (acc_add a b))) + virial_sum (eA @ eB) (pdA @ pdB) (vsA @ ?sh) 0 1),
                  (fst (snd (virial_tensor (acc_add a b))) + virial_sum (eA @ eB) (pdA @ pdB) (vsA @ ?sh) 1 0,
                   snd (snd (virial_tensor (acc_add a b))) + virial_sum (eA @ eB) (pdA @ pdB) (vsA @ ?sh) 1 1)),
               f_beads_x := map (\<lambda>q. f_beads_x (acc_add a b) ! q
                                   + col_sum (map (map (\<lambda>e. fst (snd e))) (eA @ eB)) q) [0..<n],
               f_beads_y := map (\<lambda>q. f_beads_y (acc_add a b) ! q
                                   + col_sum (map (map (\<lambda>e. snd (snd e))) (eA @ eB)) q) [0..<n]\<rparr>
      = acc_add a' b'"
    unfolding a' b' acc_add_def vs
    by (simp add: fx fy mat2_add_def vec_add_def del: map_append)
       (simp add: algebra_simps add_divide_distrib)
  with cJ show ?thesis by simp
qed

subsection \<open>calc\_energy\_forces on joined slices\<close>

lemma get_distances_mpi_append:
  assumes "get_distances_mpi pos pA cell_dim = Inr pdA" and "get_distances_mpi pos pB cell_dim = Inr pdB"
  shows "get_distances_mpi pos (pA @ pB) cell_dim = Inr (pdA @ pdB)" and "length pdA = length pA"
proof -
  from assms(1) obtain rA where rA: "norm_indices (length pos) pA = Inr rA"
    by (auto simp: get_distances_mpi_def split: sum.splits)
  from assms(2) obtain rB where rB: "norm_indices (length pos) pB = Inr rB"
    by (auto simp: get_distances_mpi_def split: sum.splits)
  from assms rA rB show "get_distances_mpi pos (pA @ pB) cell_dim = Inr (pdA @ pdB)"
    by (auto simp: get_distances_mpi_def norm_indices_append [OF rA rB])
  from assms(1) rA norm_indices_length [OF rA] show "length pdA = length pA"
    by (auto simp: get_distances_mpi_def)
qed

lemma map_add_zero_nth: "length f = n \<Longrightarrow> map (\<lambda>r. f ! r + 0) [0..<n] = f" for f :: "real list"
  using map_nth [of f] by simp

lemma bond_block_empty:
  assumes "length (f_beads_x acc) = n" "length (f_beads_y acc) = n"
  shows "bond_block ut p n pd [] [] acc = Inr acc"
  using assms map_nth [of "f_beads_x acc"] map_nth [of "f_beads_y acc"]
  by (simp add: bond_block_def norm_indices2_def broadcast_to_def row_sum_def scatter_zeros_def)

lemma try_steps_inv:
  assumes "try_steps fs s = Inr s'" and "P s"
    and "\<And>f t t'. f \<in> set fs \<Longrightarrow> P t \<Longrightarrow> f t = Inr t' \<Longrightarrow> P t'"
  shows "P s'"
  using assms
proof (induction fs arbitrary: s)
  case Nil
  then show ?case by simp
next
  case (Cons f fs)
  show ?case
  proof (cases "f s")
    case (Inl e)
    with Cons.prems show ?thesis by (cases e) simp_all
  next
    case (Inr t)
    with Cons.prems have "try_steps fs t = Inr s'" "P t" by auto
    with Cons show ?thesis by (metis list.set_intros(2))
  qed
qed

lemma iadd_at_length: "iadd_at f idx vals = Inr f' \<Longrightarrow> length f' = length f"
  by (auto simp: iadd_at_def fold_iadd_length split: sum.splits)

lemma add_x_length:
  "add_x idx vals acc = Inr acc' \<Longrightarrow>
     length (f_beads_x acc') = length (f_beads_x acc) \<and> f_beads_y acc' = f_beads_y acc"
  by (auto simp: add_x_def split: sum.splits dest: iadd_at_length)

lemma add_y_length:
  "add_y idx vals acc = Inr acc' \<Longrightarrow>
     length (f_beads_y acc') = length (f_beads_y acc) \<and> f_beads_x acc' = f_beads_x acc"
  by (auto simp: add_y_def split: sum.splits dest: iadd_at_length)

lemma angle_block_length:
  assumes r: "angle_block p pos cell_dim ai abi acc = Inr acc'"
    and l: "length (f_beads_x acc) = n" "length (f_beads_y acc) = n"
  shows "length (f_beads_x acc') = n \<and> length (f_beads_y acc') = n"
proof (cases "angle_dist_of p pos cell_dim abi")
  case (Inl e)
  with r l show ?thesis by (cases e) (simp_all add: angle_block_def)
next
  case ad: (Inr vector)
  show ?thesis
  proof (cases "cos_sin_theta vector (map (\<lambda>d. sqrt (sq_len d)) vector)")
    case (Inl e)
    with r l ad show ?thesis by (cases e) (simp_all add: angle_block_def)
  next
    case (Inr csr)
    obtain c s rp where csr: "csr = (c, s, rp)" by (cases csr)
    let ?P = "\<lambda>a. length (f_beads_x a) = n \<and> length (f_beads_y a) = n"
    from r ad Inr csr l
    have "\<exists>fs acc1. try_steps fs acc1 = Inr acc' \<and> ?P acc1
            \<and> (\<forall>f\<in>set fs. (\<exists>idx vals. f = add_x idx vals) \<or> (\<exists>idx vals. f = add_y idx vals))"
      unfolding angle_block_def Let_def
      apply (simp del: try_steps.simps)
      apply (rule exI, rule exI, rule conjI, assumption)
      apply auto
      done
    then obtain fs acc1 where t: "try_steps fs acc1 = Inr acc'"
      and p1: "?P acc1"
      and fs: "\<forall>f\<in>set fs. (\<exists>idx vals. f = add_x idx vals) \<or> (\<exists>idx vals. f = add_y idx vals)"
      by blast
    show ?thesis
    proof (rule try_steps_inv [OF t, of ?P])
      show "?P acc1" by (rule p1)
    next
      fix f t t' assume f: "f \<in> set fs" and pt: "?P t" and ft: "f t = Inr t'"
      from fs f consider idx vals where "f = add_x idx vals" | idx vals where "f = add_y idx vals"
        by blast
      then show "?P t'"
      proof cases
        case 1
        with ft add_x_length [of idx vals t t'] pt show ?thesis by simp
      next
        case 2
        with ft add_y_length [of idx vals t t'] pt show ?thesis by simp
      qed
    qed
  qed
qed

lemma acc_zero_add: "acc_add (acc_zero n) (acc_zero n) = acc_zero n"
  by (simp add: acc_add_def acc_zero_def mat2_add_def vec_add_def map2_replicate)

lemma acc_zero_length: "length (f_beads_x (acc_zero n)) = n" "length (f_beads_y (acc_zero n)) = n"
  by (simp_all add: acc_zero_def)

lemma wf_slice_no_bonds:
  assumes "wf_slice n s" and "bond_indices s = []"
  shows "frc_indices s = []" "angle_indices s = []" "angle_bond_indices s = []"
  using assms by (auto simp: wf_slice_def)

lemma nonbond_block_length:
  assumes "nonbond_block ut p n pd coeff vidx acc = Inr acc'"
  shows "length (f_beads_x acc') = n \<and> length (f_beads_y acc') = n"
  using assms by (auto simp: nonbond_block_def Let_def split: sum.splits)

lemma calc_chain_D:
  assumes wf: "wf_slice (length pos) s"
    and r: "calc_energy_forces ut pos cell_dim s p = Inr (e, f, v)"
  shows "\<exists>pd a1 a2 a3.
           get_distances_mpi pos (pos_indices s) cell_dim = Inr pd
         \<and> bond_block ut p (length pos) pd (bond_indices s) (frc_indices s) (acc_zero (length pos)) = Inr a1
         \<and> angle_block p pos cell_dim (angle_indices s) (angle_bond_indices s) a1 = Inr a2
         \<and> nonbond_block ut p (length pos) pd (vdw_coeff s) (virial_indicies s) a2 = Inr a3
         \<and> e = pot_energy a3 \<and> f = zip (f_beads_x a3) (f_beads_y a3) \<and> v = virial_tensor a3"
proof (cases "bond_indices s = []")
  case True
  note e = wf_slice_no_bonds [OF wf True]
  from r True obtain pd a3 where "get_distances_mpi pos (pos_indices s) cell_dim = Inr pd"
    "nonbond_block ut p (length pos) pd (vdw_coeff s) (virial_indicies s) (acc_zero (length pos)) = Inr a3"
    "e = pot_energy a3" "f = zip (f_beads_x a3) (f_beads_y a3)" "v = virial_tensor a3"
    by (auto simp: calc_energy_forces_def Let_def split: sum.splits)
  then show ?thesis
    using True e by (auto simp: bond_block_empty acc_zero_length angle_block_empty)
next
  case False
  with r show ?thesis
    by (auto simp: calc_energy_forces_def Let_def split: sum.splits)
qed

lemma calc_chain_I:
  assumes wf: "wf_slice (length pos) s"
    and pd: "get_distances_mpi pos (pos_indices s) cell_dim = Inr pd"
    and b: "bond_block ut p (length pos) pd (bond_indices s) (frc_indices s) (acc_zero (length pos)) = Inr a1"
    and a: "angle_block p pos cell_dim (angle_indices s) (angle_bond_indices s) a1 = Inr a2"
    and nb: "nonbond_block ut p (length pos) pd (vdw_coeff s) (virial_indicies s) a2 = Inr a3"
  shows "calc_energy_forces ut pos cell_dim s p
       = Inr (pot_energy a3, zip (f_beads_x a3) (f_beads_y a3), virial_tensor a3)"
proof (cases "bond_indices s = []")
  case True
  note e = wf_slice_no_bonds [OF wf True]
  from b True e have "a1 = acc_zero (length pos)"
    by (simp add: bond_block_empty acc_zero_length)
  with a e have "a2 = acc_zero (length pos)" by (simp add: angle_block_empty)
  with pd nb True show ?thesis by (simp add: calc_energy_forces_def)
next
  case False
  with pd b a nb show ?thesis by (simp add: calc_energy_forces_def)
qed

lemma list_all_shift_rows:
  "list_all (\<lambda>ij. 0 \<le> fst ij) xs \<Longrightarrow> list_all (\<lambda>ij. 0 \<le> fst ij) (shift_rows m xs)"
  by (auto simp: shift_rows_def list_all_iff)

lemma length_shift_rows: "length (shift_rows m xs) = length xs"
  by (simp add: shift_rows_def)

lemma wf_join:
  assumes "wf_slice n a" "wf_slice n b"
  shows "wf_slice n (join a b)"
  using assms by (auto simp: wf_slice_def join_def list_all_shift_rows length_shift_rows)

lemma wf_no_indices: "wf_slice n no_indices"
  by (simp add: wf_slice_def no_indices_def)

lemma wf_merge: "list_all (wf_slice n) ss \<Longrightarrow> wf_slice n (merge ss)"
  by (induction ss) (auto simp: wf_no_indices wf_join)

lemma scatter_distinct_join:
  assumes "scatter_distinct n (join a b)"
  shows "scatter_distinct n b"
  using assms by (auto simp: scatter_distinct_def join_def)

lemma zip_acc_add:
  assumes "length xa = n" "length xb = n" "length ya = n" "length yb = n"
  shows "zip (map2 (+) xa xb) (map2 (+) ya yb) = map2 vec_add (zip xa ya) (zip xb yb)"
  using assms by (intro nth_equalityI) (auto simp: vec_add_def)

lemma calc_join:
  assumes wfA: "wf_slice (length pos) a" and wfB: "wf_slice (length pos) b"
    and sd: "scatter_distinct (length pos) (join a b)"
    and rA: "calc_energy_forces ut pos cell_dim a p = Inr (eA, fA, vA)"
    and rB: "calc_energy_forces ut pos cell_dim b p = Inr (eB, fB, vB)"
  shows "calc_energy_forces ut pos cell_dim (join a b) p
       = Inr (eA + eB, map2 vec_add fA fB, mat2_add vA vB)"
proof -
  let ?n = "length pos"
  from calc_chain_D [OF wfA rA] obtain pdA a1 a2 a3 where
    kA: "get_distances_mpi pos (pos_indices a) cell_dim = Inr pdA"
    and bA: "bond_block ut p ?n pdA (bond_indices a) (frc_indices a) (acc_zero ?n) = Inr a1"
    and aA: "angle_block p pos cell_dim (angle_indices a) (angle_bond_indices a) a1 = Inr a2"
    and nA: "nonbond_block ut p ?n pdA (vdw_coeff a) (virial_indicies a) a2 = Inr a3"
    and resA: "eA = pot_energy a3" "fA = zip (f_beads_x a3) (f_beads_y a3)" "vA = virial_tensor a3"
    by blast
  from calc_chain_D [OF wfB rB] obtain pdB b1 b2 b3 where
    kB: "get_distances_mpi pos (pos_indices b) cell_dim = Inr pdB"
    and bB: "bond_block ut p ?n pdB (bond_indices b) (frc_indices b) (acc_zero ?n) = Inr b1"
    and aB: "angle_block p pos cell_dim (angle_indices b) (angle_bond_indices b) b1 = Inr b2"
    and nB: "nonbond_block ut p ?n pdB (vdw_coeff b) (virial_indicies b) b2 = Inr b3"
    and resB: "eB = pot_energy b3" "fB = zip (f_beads_x b3) (f_beads_y b3)" "vB = virial_tensor b3"
    by blast
  note lpd = get_distances_mpi_append(2) [OF kA kB]
  have kJ: "get_distances_mpi pos (pos_indices (join a b)) cell_dim = Inr (pdA @ pdB)"
    using get_distances_mpi_append(1) [OF kA kB] by (simp add: join_def)
  from wfA have wA: "list_all (\<lambda>ij. 0 \<le> fst ij) (bond_indices a)"
    "list_all (\<lambda>ij. 0 \<le> fst ij) (virial_indicies a)"
    "length (vdw_coeff a) = length pdA"
    "length (frc_indices a) = length (bond_indices a)"
    "length (angle_bond_indices a) = 2 * length (angle_indices a)"
    "list_all (\<lambda>t. valid_index ?n (fst t) \<and> valid_index ?n (fst (snd t))
                         \<and> valid_index ?n (snd (snd t))) (angle_indices a)"
    "list_all (\<lambda>ab. valid_index ?n (fst ab) \<and> valid_index ?n (snd ab)) (angle_bond_indices a)"
    by (simp_all add: wf_slice_def lpd)
  from wfB have wB: "list_all (\<lambda>ij. 0 \<le> fst ij) (bond_indices b)"
    "list_all (\<lambda>ij. 0 \<le> fst ij) (virial_indicies b)"
    "length (frc_indices b) = length (bond_indices b)"
    "length (angle_bond_indices b) = 2 * length (angle_indices b)"
    "list_all (\<lambda>t. valid_index ?n (fst t) \<and> valid_index ?n (fst (snd t))
                         \<and> valid_index ?n (snd (snd t))) (angle_indices b)"
    "list_all (\<lambda>ab. valid_index ?n (fst ab) \<and> valid_index ?n (snd ab)) (angle_bond_indices b)"
    by (simp_all add: wf_slice_def)
  from sd have dJ: "distinct (map (\<lambda>ij. (bead_of ?n (fst ij), bead_of ?n (snd ij)))
                       (frc_indices a @ frc_indices b))"
    "distinct (map (\<lambda>t. bead_of ?n (fst t)) (angle_indices a @ angle_indices b))"
    "distinct (map (\<lambda>t. bead_of ?n (fst (snd t))) (angle_indices a @ angle_indices b))"
    "distinct (map (\<lambda>t. bead_of ?n (snd (snd t))) (angle_indices a @ angle_indices b))"
    by (simp_all add: scatter_distinct_def join_def)
  have l1: "length (f_beads_x a1) = ?n" "length (f_beads_y a1) = ?n"
    "length (f_beads_x b1) = ?n" "length (f_beads_y b1) = ?n"
    using bond_block_length [OF bA] bond_block_length [OF bB] by simp_all
  have l2: "length (f_beads_x a2) = ?n" "length (f_beads_y a2) = ?n"
    "length (f_beads_x b2) = ?n" "length (f_beads_y b2) = ?n"
    using angle_block_length [OF aA l1(1,2)] angle_block_length [OF aB l1(3,4)] by simp_all
  have l3: "length (f_beads_x a3) = ?n" "length (f_beads_y a3) = ?n"
    "length (f_beads_x b3) = ?n" "length (f_beads_y b3) = ?n"
    using nonbond_block_length [OF nA] nonbond_block_length [OF nB] by simp_all
  have bJ: "bond_block ut p ?n (pdA @ pdB) (bond_indices (join a b)) (frc_indices (join a b))
              (acc_zero ?n) = Inr (acc_add a1 b1)"
    using bond_block_join [OF bA bB wA(4) wB(3) wA(1) wB(1) dJ(1) acc_zero_length acc_zero_length]
    by (simp add: join_def acc_zero_add lpd)
  have aJ: "angle_block p pos cell_dim (angle_indices (join a b)) (angle_bond_indices (join a b))
              (acc_add a1 b1) = Inr (acc_add a2 b2)"
    using angle_block_join [OF aA aB wA(6,7) wB(5,6) wA(5) wB(4) dJ(2,3,4) l1]
    by (simp add: join_def)
  have nJ: "nonbond_block ut p ?n (pdA @ pdB) (vdw_coeff (join a b)) (virial_indicies (join a b))
              (acc_add a2 b2) = Inr (acc_add a3 b3)"
    using nonbond_block_join [OF nA nB wA(3) wA(2) wB(2) l2]
    by (simp add: join_def lpd)
  from calc_chain_I [OF wf_join [OF wfA wfB] kJ bJ aJ nJ]
  show ?thesis
    by (simp add: resA resB acc_add_def zip_acc_add [OF l3(1) l3(3) l3(2) l3(4)])
qed

lemma vec_add_swap: "vec_add (vec_add z f) h = vec_add (vec_add z h) f"
  by (simp add: vec_add_def)

lemma map2_vec_add_swap:
  "map2 vec_add (map2 vec_add z f) h = map2 vec_add (map2 vec_add z h) f"
proof (induction z arbitrary: f h)
  case Nil
  then show ?case by simp
next
  case (Cons x z)
  show ?case
  proof (cases f)
    case Nil
    then show ?thesis by simp
  next
    case f: (Cons y f')
    show ?thesis
    proof (cases h)
      case Nil
      then show ?thesis by simp
    next
      case (Cons w h')
      with f Cons.IH [of f' h'] show ?thesis by (simp add: vec_add_swap)
    qed
  qed
qed

lemma map2_vec_add_commute: "map2 vec_add z f = map2 vec_add f z"
proof (induction z arbitrary: f)
  case Nil
  then show ?case by simp
next
  case (Cons x z)
  then show ?case by (cases f) (simp_all add: vec_add_def add.commute)
qed

lemma fold_frc_shift:
  "fold (\<lambda>f s. map2 vec_add s f) fs (map2 vec_add z f)
     = map2 vec_add f (fold (\<lambda>f s. map2 vec_add s f) fs z)"
proof (induction fs arbitrary: z)
  case Nil
  show ?case by (simp add: map2_vec_add_commute)
next
  case (Cons h fs)
  have "fold (\<lambda>f s. map2 vec_add s f) (h # fs) (map2 vec_add z f)
      = fold (\<lambda>f s. map2 vec_add s f) fs (map2 vec_add (map2 vec_add z h) f)"
    by (simp add: map2_vec_add_swap [of z f h])
  also have "\<dots> = map2 vec_add f (fold (\<lambda>f s. map2 vec_add s f) fs (map2 vec_add z h))"
    by (rule Cons.IH)
  finally show ?case by simp
qed

lemma sum_frc_Cons: "sum_frc n (f # fs) = map2 vec_add f (sum_frc n fs)"
  by (simp add: sum_frc_def fold_frc_shift)

lemma fold_virial_shift:
  "fold (\<lambda>v s. mat2_add s v) vs (mat2_add z v) = mat2_add v (fold (\<lambda>v s. mat2_add s v) vs z)"
proof (induction vs arbitrary: z)
  case Nil
  show ?case by (simp add: mat2_add_def vec_add_def add.commute)
next
  case (Cons w vs)
  have "mat2_add (mat2_add z v) w = mat2_add (mat2_add z w) v"
    by (simp add: mat2_add_def vec_add_def)
  then show ?case using Cons.IH [of "mat2_add z w"] by simp
qed

lemma sum_virial_Cons: "sum_virial (v # vs) = mat2_add v (sum_virial vs)"
  by (simp add: sum_virial_def fold_virial_shift)

lemma calc_no_indices:
  "calc_energy_forces ut pos cell_dim no_indices p
     = Inr (0, replicate (length pos) (0, 0), ((0, 0), (0, 0)))"
proof -
  have "map (\<lambda>q. replicate (length pos) (0 :: real) ! q + 0) [0..<length pos]
      = replicate (length pos) 0"
    by (rule nth_equalityI) simp_all
  then show ?thesis
    by (simp add: calc_energy_forces_def no_indices_def get_distances_mpi_def norm_indices_def
        nonbond_block_def nonbond_entries_def norm_indices2_def acc_zero_def virial_sum_def
        col_sum_def zip_replicate)
qed

text \<open>
  C1, as stated: for any disjoint, covering partitioning of the index lists the sums of
  the per-slice energies, forces and virial tensors are those of a single evaluation over
  the full lists. The angular block runs only under \<open>n_bond > 0\<close>: when one process
  holds the bond of a triplet and another its angle, the slice with the angle has no bonds
  and skips it. The single evaluation gives the angular energy \<open>9/5\<close> and the angular
  forces, the two slices give zero.
\<close>

theorem partition_counterexample:
  "calc_energy_forces ut_spec [(1, 1), (4, 5), (4, 1)] (10, 10)
      (join (no_indices\<lparr>pos_indices := [0, 1, 2], bond_indices := [(0, 1)],
                          frc_indices := [(0, 1)]\<rparr>)
            (no_indices\<lparr>angle_indices := [(0, 1, 2)],
                          angle_bond_indices := [(0, 1), (2, 1)]\<rparr>))
      (test_param\<lparr>bond_k0 := 0, rc := 1\<rparr>)
    = Inr (9 / 5, [(- 3 / 20, - 1 / 20), (39 / 500, 77 / 500), (9 / 125, - 13 / 125)],
           ((0, 0), (0, 0)))
   \<and> calc_energy_forces ut_spec [(1, 1), (4, 5), (4, 1)] (10, 10)
      (no_indices\<lparr>pos_indices := [0, 1, 2], bond_indices := [(0, 1)], frc_indices := [(0, 1)]\<rparr>)
      (test_param\<lparr>bond_k0 := 0, rc := 1\<rparr>)
    = Inr (0, [(0, 0), (0, 0), (0, 0)], ((0, 0), (0, 0)))
   \<and> calc_energy_forces ut_spec [(1, 1), (4, 5), (4, 1)] (10, 10)
      (no_indices\<lparr>angle_indices := [(0, 1, 2)], angle_bond_indices := [(0, 1), (2, 1)]\<rparr>)
      (test_param\<lparr>bond_k0 := 0, rc := 1\<rparr>)
    = Inr (0, [(0, 0), (0, 0), (0, 0)], ((0, 0), (0, 0)))
   \<and> (9 / 5 :: real) \<noteq> 0 + 0"
  by (simp add: full_defs join_def shift_rows_def)

text \<open>
  C1, amended: for slices that are well formed (\<open>wf_slice\<close>: row indices counted from
  the first row, a row of \<open>vdw_coeff\<close> for each entry of \<open>pos_indices\<close>, one entry of
  \<open>frc_indices\<close> for each bond and two bond vectors for each triplet, valid bead indices
  in the angle arrays, and at least one bond in every slice that has an angle triplet) and
  whose merged index lists write no position twice in one scattered addition
  (\<open>scatter_distinct\<close>), for any number of slices: when \<open>calc_energy_forces\<close>
  returns on every slice, it returns on the merged index lists, with the sum of the
  per-slice energies, the element-wise sum of the per-slice force arrays and the
  element-wise sum of the per-slice virial tensors.
\<close>

theorem partition_invariance:
  assumes wf: "list_all (wf_slice (length pos)) slices"
    and sd: "scatter_distinct (length pos) (merge slices)"
    and parts: "map (\<lambda>s. calc_energy_forces ut pos cell_dim s p) slices = map Inr parts"
  shows "calc_energy_forces ut pos cell_dim (merge slices) p
       = Inr (sum_list (map fst parts),
              sum_frc (length pos) (map (\<lambda>r. fst (snd r)) parts),
              sum_virial (map (\<lambda>r. snd (snd r)) parts))"
  using assms
proof (induction slices arbitrary: parts)
  case Nil
  then show ?case by (simp add: calc_no_indices sum_frc_def sum_virial_def)
next
  case (Cons s ss)
  from Cons.prems(3) obtain r rs where parts: "parts = r # rs"
    and r: "calc_energy_forces ut pos cell_dim s p = Inr r"
    and rs: "map (\<lambda>s. calc_energy_forces ut pos cell_dim s p) ss = map Inr rs"
    by (cases parts) auto
  obtain e f v where efv: "r = (e, f, v)" by (cases r)
  from Cons.prems(1) have wfs: "wf_slice (length pos) s" and wfss: "list_all (wf_slice (length pos)) ss"
    by simp_all
  from Cons.prems(2) have sdJ: "scatter_distinct (length pos) (join s (merge ss))" by simp
  note ih = Cons.IH [OF wfss scatter_distinct_join [OF sdJ] rs]
  from calc_join [OF wfs wf_merge [OF wfss] sdJ r [unfolded efv] ih]
  show ?case by (simp add: parts efv sum_frc_Cons sum_virial_Cons)
qed

theorem partition_invariance_witness:
  "calc_energy_forces ut_spec [(1, 1), (4, 5), (4, 1)] (10, 10)
      (merge [no_indices\<lparr>pos_indices := [0], bond_indices := [(0, 1)], frc_indices := [(0, 1)],
                           angle_indices := [(0, 1, 2)], angle_bond_indices := [(0, 1), (2, 1)],
                           vdw_coeff := [[0, 0, 0]], virial_indicies := [(0, 2)]\<rparr>,
              no_indices\<lparr>pos_indices := [1, 2], bond_indices := [(0, 2)], frc_indices := [(1, 2)],
                           vdw_coeff := [[0, 0, 0], [0, 0, 0]], virial_indicies := [(0, 0)]\<rparr>])
      (test_param\<lparr>vdw_sigma := 3, rc := 6\<rparr>)
    = Inr (42161 / 5120,
           [(6673 / 3200, 4947 / 1600), (3891 / 32000, - 345223 / 128000),
            (6179 / 32000, - 24937 / 128000)],
           ((279 / 400, - 837 / 1600), (- 279 / 400, - 93 / 100)))"
proof -
  let ?a = "no_indices\<lparr>pos_indices := [0], bond_indices := [(0, 1)], frc_indices := [(0, 1)],
                           angle_indices := [(0, 1, 2)], angle_bond_indices := [(0, 1), (2, 1)],
                           vdw_coeff := [[0, 0, 0]], virial_indicies := [(0, 2)]\<rparr>"
  let ?b = "no_indices\<lparr>pos_indices := [1, 2], bond_indices := [(0, 2)], frc_indices := [(1, 2)],
                           vdw_coeff := [[0, 0, 0], [0, 0, 0]], virial_indicies := [(0, 0)]\<rparr>"
  let ?p = "test_param\<lparr>vdw_sigma := 3, rc := 6\<rparr>"
  let ?pos = "[(1, 1), (4, 5), (4 :: real, 1 :: real)]"
  have wf: "list_all (wf_slice (length ?pos)) [?a, ?b]"
    by (simp add: wf_slice_def no_indices_def valid_index_def)
  have sd: "scatter_distinct (length ?pos) (merge [?a, ?b])"
    by (simp add: scatter_distinct_def join_def no_indices_def bead_of_def)
  have ra: "calc_energy_forces ut_spec ?pos (10, 10) ?a ?p
      = Inr (30011 / 5120, [(9 / 4, 63 / 20), (3891 / 32000, 1697 / 8000), (6179 / 32000, - 13 / 125)],
             ((279 / 256, 0), (0, 0)))"
    by (simp add: full_defs)
  have rb: "calc_energy_forces ut_spec ?pos (10, 10) ?b ?p
      = Inr (1215 / 512, [(- 527 / 3200, - 93 / 1600), (0, - 2979 / 1024), (0, - 93 / 1024)],
             ((- 2511 / 6400, - 837 / 1600), (- 279 / 400, - 93 / 100)))"
    by (simp add: full_defs)
  have parts: "map (\<lambda>s. calc_energy_forces ut_spec ?pos (10, 10) s ?p) [?a, ?b]
      = map Inr [(30011 / 5120, [(9 / 4, 63 / 20), (3891 / 32000, 1697 / 8000), (6179 / 32000, - 13 / 125)],
             ((279 / 256, 0), (0, 0))),
            (1215 / 512, [(- 527 / 3200, - 93 / 1600), (0, - 2979 / 1024), (0, - 93 / 1024)],
             ((- 2511 / 6400, - 837 / 1600), (- 279 / 400, - 93 / 100)))]"
    using ra rb by simp
  from partition_invariance [OF wf sd parts]
  show ?thesis by (simp add: sum_frc_def sum_virial_def vec_add_def mat2_add_def)
qed

end
